theory Spec2Isabelle
  imports Main
begin

section \<open>JavaScript values\<close>

text \<open>
  The payloads that travel through the library are JavaScript values. Strings are
  modelled over 8-bit code units; numbers are never inspected arithmetically by the
  library (only their type and truthiness), so the integers stand for them. A \<open>File\<close>
  carries a name, a media type and its bytes; a \<open>FormData\<close> is the ordered list of its
  entries, each a text or a file. A plain object is the list of its own enumerable
  properties in the order \<open>Object.entries\<close> reports them.
\<close>

datatype jsfile = File (file_name: string) (file_type: string) (file_bytes: string)

datatype form_value = FText string | FFile jsfile

datatype jsval =
    JUndefined
  | JNull
  | JBool bool
  | JNum int
  | JStr string
  | JArr "jsval list"
  | JObj "(string \<times> jsval) list"
  | JFile jsfile
  | JFormData "(string \<times> form_value) list"

datatype error =
    Error string
  | TypeError string
  | InvalidCharacterError

text \<open>\<open>!v\<close> is \<open>\<not> truthy v\<close>.\<close>

fun truthy :: "jsval \<Rightarrow> bool" where
  "truthy JUndefined = False"
| "truthy JNull = False"
| "truthy (JBool b) = b"
| "truthy (JNum n) = (n \<noteq> 0)"
| "truthy (JStr s) = (s \<noteq> [])"
| "truthy (JArr xs) = True"
| "truthy (JObj kvs) = True"
| "truthy (JFile f) = True"
| "truthy (JFormData es) = True"

fun typeof :: "jsval \<Rightarrow> string" where
  "typeof JUndefined = ''undefined''"
| "typeof JNull = ''object''"
| "typeof (JBool b) = ''boolean''"
| "typeof (JNum n) = ''number''"
| "typeof (JStr s) = ''string''"
| "typeof (JArr xs) = ''object''"
| "typeof (JObj kvs) = ''object''"
| "typeof (JFile f) = ''object''"
| "typeof (JFormData es) = ''object''"

text \<open>
  \<open>get_prop v k\<close> is \<open>Some (v[k])\<close> when \<open>k in v\<close> holds and \<open>None\<close> otherwise. The library
  only asks for the fixed property names of its wire formats (\<open>data\<close>, \<open>via\<close>, \<open>type\<close>,
  \<open>messageId\<close>, \<open>from\<close>, \<open>to\<close>, \<open>payload\<close>, \<open>timestamp\<close>, \<open>dataType\<close>, \<open>items\<close>,
  \<open>content\<close>, \<open>fileName\<close>) and always checks a string-valued one first; none of these
  is an array index or sits on the prototype of arrays or form containers, so only
  plain objects answer.
\<close>

fun get_prop :: "jsval \<Rightarrow> string \<Rightarrow> jsval option" where
  "get_prop (JObj kvs) k = map_of kvs k"
| "get_prop v k = None"

text \<open>
  \<open>obj[key] = v\<close> on an object created by an object literal. For the key
  \<open>__proto__\<close> the assignment goes to the setter that \<open>Object.prototype\<close> has for
  it and the object gets no own property (when \<open>v\<close> is an object or \<open>null\<close> the
  setter replaces the prototype, which is not an own property either; values are
  given here by their own properties, which is what a structured clone carries).
  For every other key an existing property keeps its place and a new one goes
  last. (Engines list integer-like keys first; nothing proved below depends on
  where such a key lands.)
\<close>

fun own_put :: "(string \<times> jsval) list \<Rightarrow> string \<Rightarrow> jsval \<Rightarrow> (string \<times> jsval) list" where
  "own_put [] k v = [(k, v)]"
| "own_put ((k', v') # kvs) k v = (if k' = k then (k, v) # kvs else (k', v') # own_put kvs k v)"

definition js_set :: "(string \<times> jsval) list \<Rightarrow> string \<Rightarrow> jsval \<Rightarrow> (string \<times> jsval) list" where
  "js_set kvs k v = (if k = ''__proto__'' then kvs else own_put kvs k v)"

subsection \<open>Conversion to string\<close>

definition digit_char :: "nat \<Rightarrow> char" where
  "digit_char n = char_of (48 + n)"

fun show_nat :: "nat \<Rightarrow> string" where
  "show_nat n = (if n < 10 then [digit_char n] else show_nat (n div 10) @ [digit_char (n mod 10)])"

declare show_nat.simps [simp del]

definition show_int :: "int \<Rightarrow> string" where
  "show_int i = (if i < 0 then CHR ''-'' # show_nat (nat (- i)) else show_nat (nat i))"

fun join_comma :: "string list \<Rightarrow> string" where
  "join_comma [] = []"
| "join_comma [s] = s"
| "join_comma (s # t # ss) = s @ '','' @ join_comma (t # ss)"

text \<open>\<open>String(v)\<close>, as the platform applies it to a file name or a text entry.\<close>

fun to_string :: "jsval \<Rightarrow> string"
  and elems_to_string :: "jsval list \<Rightarrow> string list" where
  "to_string JUndefined = ''undefined''"
| "to_string JNull = ''null''"
| "to_string (JBool b) = (if b then ''true'' else ''false'')"
| "to_string (JNum n) = show_int n"
| "to_string (JStr s) = s"
| "to_string (JArr xs) = join_comma (elems_to_string xs)"
| "to_string (JObj kvs) = ''[object Object]''"
| "to_string (JFile f) = ''[object File]''"
| "to_string (JFormData es) = ''[object FormData]''"
| "elems_to_string [] = []"
| "elems_to_string (x # xs) =
     (if x = JUndefined \<or> x = JNull then [] else to_string x) # elems_to_string xs"

text \<open>\<open>Object.entries\<close> and \<open>Object.values\<close>; a file or a form container has no own
  enumerable property.\<close>

fun index_entries :: "nat \<Rightarrow> jsval list \<Rightarrow> (string \<times> jsval) list" where
  "index_entries i [] = []"
| "index_entries i (x # xs) = (show_nat i, x) # index_entries (Suc i) xs"

fun object_entries :: "jsval \<Rightarrow> (string \<times> jsval) list" where
  "object_entries (JObj kvs) = kvs"
| "object_entries (JArr xs) = index_entries 0 xs"
| "object_entries v = []"

definition object_values :: "jsval \<Rightarrow> jsval list" where
  "object_values v = map snd (object_entries v)"

section \<open>Platform services used by the codec\<close>

subsection \<open>Base64\<close>

text \<open>
  \<open>FileReader.readAsDataURL\<close> writes the bytes in base64 (RFC 4648, padded), and \<open>atob\<close>
  reads base64 back by the forgiving-base64 decoding of the WHATWG Infra standard.
  A byte string has one character per byte.
\<close>

definition b64_char :: "nat \<Rightarrow> char" where
  "b64_char n =
     (if n < 26 then char_of (65 + n)
      else if n < 52 then char_of (71 + n)
      else if n < 62 then char_of (n - 4)
      else if n = 62 then CHR ''+'' else CHR ''/'')"

definition b64_index :: "char \<Rightarrow> nat option" where
  "b64_index c =
     (let n = (of_char c :: nat) in
      if 65 \<le> n \<and> n \<le> 90 then Some (n - 65)
      else if 97 \<le> n \<and> n \<le> 122 then Some (n - 71)
      else if 48 \<le> n \<and> n \<le> 57 then Some (n + 4)
      else if c = CHR ''+'' then Some 62
      else if c = CHR ''/'' then Some 63
      else None)"

text \<open>The 6-bit groups of a byte string: four for every three bytes, two for one
  byte left over, three for two.\<close>

fun sextets :: "string \<Rightarrow> nat list" where
  "sextets (a # b # c # rest) =
     (let x = (of_char a :: nat); y = (of_char b :: nat); z = (of_char c :: nat) in
      [x div 4, (x mod 4) * 16 + y div 16, (y mod 16) * 4 + z div 64, z mod 64] @ sextets rest)"
| "sextets [a, b] =
     (let x = (of_char a :: nat); y = (of_char b :: nat) in
      [x div 4, (x mod 4) * 16 + y div 16, (y mod 16) * 4])"
| "sextets [a] = (let x = (of_char a :: nat) in [x div 4, (x mod 4) * 16])"
| "sextets [] = []"

definition b64_encode :: "string \<Rightarrow> string" where
  "b64_encode bs =
     map b64_char (sextets bs) @ replicate ((3 - length bs mod 3) mod 3) (CHR ''='')"

definition ascii_whitespace :: "char \<Rightarrow> bool" where
  "ascii_whitespace c = (c \<in> set [CHR 0x09, CHR 0x0A, CHR 0x0C, CHR 0x0D, CHR 0x20])"

definition strip_padding :: "string \<Rightarrow> string" where
  "strip_padding d =
     (if length d mod 4 = 0 then
        (if 2 \<le> length d \<and> drop (length d - 2) d = ''=='' then take (length d - 2) d
         else if 1 \<le> length d \<and> drop (length d - 1) d = ''='' then take (length d - 1) d
         else d)
      else d)"

fun decode_sextets :: "nat list \<Rightarrow> string" where
  "decode_sextets (s1 # s2 # s3 # s4 # rest) =
     [char_of (s1 * 4 + s2 div 16), char_of ((s2 mod 16) * 16 + s3 div 4),
      char_of ((s3 mod 4) * 64 + s4)] @ decode_sextets rest"
| "decode_sextets [s1, s2, s3] =
     [char_of (s1 * 4 + s2 div 16), char_of ((s2 mod 16) * 16 + s3 div 4)]"
| "decode_sextets [s1, s2] = [char_of (s1 * 4 + s2 div 16)]"
| "decode_sextets ss = []"

definition atob :: "string \<Rightarrow> string option" where
  "atob s =
     (let d = strip_padding (filter (\<lambda>c. \<not> ascii_whitespace c) s) in
      if length d mod 4 = 1 then None
      else (case those (map b64_index d) of
              None \<Rightarrow> None
            | Some ss \<Rightarrow> Some (decode_sextets ss)))"

subsection \<open>Files\<close>

text \<open>
  The \<open>File\<close> constructor keeps a media type only when all of its characters are
  printable ASCII, and then in lower case; otherwise the type is empty.
\<close>

definition to_lower :: "char \<Rightarrow> char" where
  "to_lower c =
     (let n = (of_char c :: nat) in if 65 \<le> n \<and> n \<le> 90 then char_of (n + 32) else c)"

definition printable :: "char \<Rightarrow> bool" where
  "printable c = (32 \<le> (of_char c :: nat) \<and> (of_char c :: nat) \<le> 126)"

definition normalise_type :: "string \<Rightarrow> string" where
  "normalise_type t = (if list_all printable t then map to_lower t else [])"

definition new_File :: "string \<Rightarrow> string \<Rightarrow> string \<Rightarrow> jsfile" where
  "new_File content fileName mimeType = File fileName (normalise_type mimeType) content"

text \<open>
  \<open>readAsDataURL\<close> gives \<open>data:<type>;base64,<bytes in base64>\<close>, with
  \<open>application/octet-stream\<close> standing in for an empty type. Read errors of the
  underlying storage are not modelled.
\<close>

definition readAsDataURL :: "jsfile \<Rightarrow> string" where
  "readAsDataURL f =
     ''data:'' @ (if file_type f = [] then ''application/octet-stream'' else file_type f)
       @ '';base64,'' @ b64_encode (file_bytes f)"

subsection \<open>String splitting and the media-type pattern\<close>

text \<open>\<open>s.split(",")\<close>: never empty; the empty string gives one empty piece.\<close>

fun split_comma :: "string \<Rightarrow> string list" where
  "split_comma [] = [[]]"
| "split_comma (c # cs) =
     (if c = CHR '','' then [] # split_comma cs
      else (case split_comma cs of
              [] \<Rightarrow> [[c]]
            | p # ps \<Rightarrow> (c # p) # ps))"

text \<open>
  \<open>prefix.match(/:(.*?);/)\<close>: from the leftmost colon that works, the shortest run of
  characters other than line terminators that is followed by a semicolon. The result
  is the captured group.
\<close>

definition line_terminator :: "char \<Rightarrow> bool" where
  "line_terminator c = (c = CHR 0x0A \<or> c = CHR 0x0D)"

fun lazy_to_semicolon :: "string \<Rightarrow> string option" where
  "lazy_to_semicolon [] = None"
| "lazy_to_semicolon (c # cs) =
     (if c = CHR '';'' then Some []
      else if line_terminator c then None
      else map_option ((#) c) (lazy_to_semicolon cs))"

fun match_mime :: "string \<Rightarrow> string option" where
  "match_mime [] = None"
| "match_mime (c # cs) =
     (if c = CHR '':'' then
        (case lazy_to_semicolon cs of
           Some m \<Rightarrow> Some m
         | None \<Rightarrow> match_mime cs)
      else match_mime cs)"

section \<open>The payload codec (data-converters.ts)\<close>

text \<open>
  A promise that is awaited is modelled by the value it settles to: \<open>Inr\<close> for a
  fulfilled one, \<open>Inl\<close> for a rejected one; a \<open>throw\<close> is an \<open>Inl\<close> as well.
\<close>

definition encodeFile :: "jsfile \<Rightarrow> error + string" where
  "encodeFile file =
     (let result = readAsDataURL file in
      if result \<noteq> [] then Inr result else Inl (Error ''Could not read file.''))"

definition decodeFile :: "string \<Rightarrow> string \<Rightarrow> error + jsfile" where
  "decodeFile base64String fileName =
     (case split_comma base64String of
        prefix # base64Data # more \<Rightarrow>
          (if prefix = [] \<or> base64Data = [] then Inl (Error ''Invalid Base64 string format.'')
           else (case match_mime prefix of
                   None \<Rightarrow> Inl (Error ''Could not extract MIME type.'')
                 | Some mimeType \<Rightarrow>
                     (case atob base64Data of
                        None \<Rightarrow> Inl InvalidCharacterError
                      | Some byteString \<Rightarrow> Inr (new_File byteString fileName mimeType))))
      | short \<Rightarrow> Inl (Error ''Invalid Base64 string format.''))"

text \<open>
  The strings \<open>decodeFile\<close> accepts, told from the string itself: there is a comma;
  the part before the first comma is not empty and matches the media-type pattern;
  the part between the first comma and the next one (or the end) is not empty and
  is base64 that \<open>atob\<close> reads.
\<close>

definition first_part :: "string \<Rightarrow> string" where
  "first_part s = takeWhile (\<lambda>c. c \<noteq> CHR '','') s"

definition second_part :: "string \<Rightarrow> string" where
  "second_part s = takeWhile (\<lambda>c. c \<noteq> CHR '','') (tl (dropWhile (\<lambda>c. c \<noteq> CHR '','') s))"

definition blob_shaped :: "string \<Rightarrow> bool" where
  "blob_shaped s =
     (CHR '','' \<in> set s \<and> first_part s \<noteq> [] \<and> second_part s \<noteq> [] \<and>
      match_mime (first_part s) \<noteq> None \<and> atob (second_part s) \<noteq> None)"

text \<open>
  A data URL of a blob, in the words of the docstring of \<open>decodeFile\<close>:
  \<open>data:<mime>;base64,<encoded>\<close>.
\<close>

definition is_data_url :: "string \<Rightarrow> bool" where
  "is_data_url s =
     (take 5 s = ''data:'' \<and> CHR '','' \<in> set s \<and>
      7 \<le> length (drop 5 (first_part s)) \<and>
      drop (length (first_part s) - 7) (first_part s) = '';base64'' \<and>
      atob (drop (Suc (length (first_part s))) s) \<noteq> None)"

definition isEncodedFormDataItem :: "jsval \<Rightarrow> bool" where
  "isEncodedFormDataItem item =
     (typeof item = ''object'' \<and> item \<noteq> JNull \<and>
      (case get_prop item ''dataType'' of
         None \<Rightarrow> False
       | Some t \<Rightarrow> t = JStr ''file'' \<or> t = JStr ''text''))"

definition isEncodedFormData :: "jsval \<Rightarrow> bool" where
  "isEncodedFormData data =
     (typeof data = ''object'' \<and> data \<noteq> JNull \<and>
      get_prop data ''dataType'' = Some (JStr ''formData'') \<and>
      (case get_prop data ''items'' of
         None \<Rightarrow> False
       | Some items \<Rightarrow>
           typeof items = ''object'' \<and> items \<noteq> JNull \<and>
           list_all isEncodedFormDataItem (object_values items)))"

text \<open>
  \<open>encodeFormData\<close>: the \<open>forEach\<close> callback stores a text entry at once; for a file it
  starts the read and stores the item only when the read has finished, which is after
  the whole \<open>forEach\<close> has run. Reads are taken to finish in the order they were
  started. A failed read rejects the \<open>Promise.all\<close> and with it the call.
\<close>

definition text_item :: "string \<Rightarrow> jsval" where
  "text_item content = JObj [(''dataType'', JStr ''text''), (''content'', JStr content)]"

definition file_item :: "jsfile \<Rightarrow> string \<Rightarrow> jsval" where
  "file_item f content =
     JObj [(''dataType'', JStr ''file''), (''fileName'', JStr (file_name f)),
           (''fileType'', JStr (file_type f)), (''fileSize'', JNum (int (length (file_bytes f)))),
           (''content'', JStr content)]"

fun store_texts :: "(string \<times> form_value) list \<Rightarrow> (string \<times> jsval) list \<Rightarrow> (string \<times> jsval) list" where
  "store_texts [] items = items"
| "store_texts ((key, FText v) # rest) items = store_texts rest (js_set items key (text_item v))"
| "store_texts ((key, FFile f) # rest) items = store_texts rest items"

fun store_files :: "(string \<times> form_value) list \<Rightarrow> (string \<times> jsval) list \<Rightarrow> error + (string \<times> jsval) list" where
  "store_files [] items = Inr items"
| "store_files ((key, FText v) # rest) items = store_files rest items"
| "store_files ((key, FFile f) # rest) items =
     (case encodeFile f of
        Inl e \<Rightarrow> Inl e
      | Inr content \<Rightarrow> store_files rest (js_set items key (file_item f content)))"

definition encodeFormData :: "(string \<times> form_value) list \<Rightarrow> error + jsval" where
  "encodeFormData formData =
     (case store_files formData (store_texts formData []) of
        Inl e \<Rightarrow> Inl e
      | Inr items \<Rightarrow> Inr (JObj [(''dataType'', JStr ''formData''), (''items'', JObj items)]))"

text \<open>
  \<open>decodeFormData\<close>: \<open>formData.append\<close> keeps a file as a file and turns anything else
  into text; reading a property of \<open>null\<close> or \<open>undefined\<close>, or calling \<open>split\<close> on
  something that is not a string, throws a \<open>TypeError\<close>.
\<close>

definition prop_or_undefined :: "jsval \<Rightarrow> string \<Rightarrow> jsval" where
  "prop_or_undefined v k = (case get_prop v k of None \<Rightarrow> JUndefined | Some x \<Rightarrow> x)"

fun append_value :: "jsval \<Rightarrow> form_value" where
  "append_value (JFile f) = FFile f"
| "append_value v = FText (to_string v)"

fun decode_items :: "(string \<times> jsval) list \<Rightarrow> (string \<times> form_value) list \<Rightarrow> error + (string \<times> form_value) list" where
  "decode_items [] formData = Inr formData"
| "decode_items ((key, v) # rest) formData =
     (if v = JNull \<or> v = JUndefined then Inl (TypeError ''cannot read dataType'')
      else if get_prop v ''dataType'' = Some (JStr ''file'') then
        (case prop_or_undefined v ''content'' of
           JStr content \<Rightarrow>
             (case decodeFile content (to_string (prop_or_undefined v ''fileName'')) of
                Inl e \<Rightarrow> Inl e
              | Inr file \<Rightarrow> decode_items rest (formData @ [(key, FFile file)]))
         | other \<Rightarrow> Inl (TypeError ''base64String.split is not a function''))
      else decode_items rest (formData @ [(key, append_value (prop_or_undefined v ''content''))]))"

definition decodeFormData :: "jsval \<Rightarrow> error + jsval" where
  "decodeFormData encodedData =
     (case get_prop encodedData ''items'' of
        None \<Rightarrow> Inl (TypeError ''cannot convert undefined to object'')
      | Some items \<Rightarrow>
          (case decode_items (object_entries items) [] of
             Inl e \<Rightarrow> Inl e
           | Inr formData \<Rightarrow> Inr (JFormData formData)))"

fun encodeNestedFormData :: "jsval \<Rightarrow> error + jsval"
  and encode_all :: "jsval list \<Rightarrow> error + jsval list"
  and encode_entries :: "(string \<times> jsval) list \<Rightarrow> (string \<times> jsval) list \<Rightarrow> error + (string \<times> jsval) list" where
  "encodeNestedFormData (JFile f) =
     (case encodeFile f of Inl e \<Rightarrow> Inl e | Inr s \<Rightarrow> Inr (JStr s))"
| "encodeNestedFormData (JFormData es) = encodeFormData es"
| "encodeNestedFormData (JArr xs) =
     (case encode_all xs of Inl e \<Rightarrow> Inl e | Inr ys \<Rightarrow> Inr (JArr ys))"
| "encodeNestedFormData (JObj kvs) =
     (case encode_entries kvs [] of Inl e \<Rightarrow> Inl e | Inr encodedObject \<Rightarrow> Inr (JObj encodedObject))"
| "encodeNestedFormData JUndefined = Inr JUndefined"
| "encodeNestedFormData JNull = Inr JNull"
| "encodeNestedFormData (JBool b) = Inr (JBool b)"
| "encodeNestedFormData (JNum n) = Inr (JNum n)"
| "encodeNestedFormData (JStr s) = Inr (JStr s)"
| "encode_all [] = Inr []"
| "encode_all (x # xs) =
     (case encodeNestedFormData x of
        Inl e \<Rightarrow> Inl e
      | Inr y \<Rightarrow> (case encode_all xs of Inl e \<Rightarrow> Inl e | Inr ys \<Rightarrow> Inr (y # ys)))"
| "encode_entries [] encodedObject = Inr encodedObject"
| "encode_entries (kv # kvs) encodedObject =
     (case encodeNestedFormData (snd kv) of
        Inl e \<Rightarrow> Inl e
      | Inr y \<Rightarrow> encode_entries kvs (js_set encodedObject (fst kv) y))"

fun decodeNestedFormData :: "jsval \<Rightarrow> error + jsval"
  and decode_all :: "jsval list \<Rightarrow> error + jsval list"
  and decode_entries :: "(string \<times> jsval) list \<Rightarrow> (string \<times> jsval) list \<Rightarrow> error + (string \<times> jsval) list" where
  "decodeNestedFormData (JStr s) =
     (case decodeFile s ''unknown-filename'' of
        Inl e \<Rightarrow> Inr (JStr s)
      | Inr file \<Rightarrow> Inr (JFile file))"
| "decodeNestedFormData (JObj kvs) =
     (if isEncodedFormData (JObj kvs) then decodeFormData (JObj kvs)
      else (case decode_entries kvs [] of
              Inl e \<Rightarrow> Inl e
            | Inr decodedObject \<Rightarrow> Inr (JObj decodedObject)))"
| "decodeNestedFormData (JArr xs) =
     (case decode_all xs of Inl e \<Rightarrow> Inl e | Inr ys \<Rightarrow> Inr (JArr ys))"
| "decodeNestedFormData (JFile f) = Inr (JObj [])"
| "decodeNestedFormData (JFormData es) = Inr (JObj [])"
| "decodeNestedFormData JUndefined = Inr JUndefined"
| "decodeNestedFormData JNull = Inr JNull"
| "decodeNestedFormData (JBool b) = Inr (JBool b)"
| "decodeNestedFormData (JNum n) = Inr (JNum n)"
| "decode_all [] = Inr []"
| "decode_all (x # xs) =
     (case decodeNestedFormData x of
        Inl e \<Rightarrow> Inl e
      | Inr y \<Rightarrow> (case decode_all xs of Inl e \<Rightarrow> Inl e | Inr ys \<Rightarrow> Inr (y # ys)))"
| "decode_entries [] decodedObject = Inr decodedObject"
| "decode_entries (kv # kvs) decodedObject =
     (case decodeNestedFormData (snd kv) of
        Inl e \<Rightarrow> Inl e
      | Inr y \<Rightarrow> decode_entries kvs (js_set decodedObject (fst kv) y))"

subsection \<open>What a round trip preserves\<close>

text \<open>
  The payloads for which encoding followed by decoding is shown to give the payload
  back. A media type is clean when it is not empty, has the form the \<open>File\<close>
  constructor keeps (printable, lower case) and contains neither a comma nor a
  semicolon; a file is sound when it has at least one byte and a clean type. A
  supported payload is built from \<open>undefined\<close>, \<open>null\<close>, booleans, numbers, strings
  that are not blob-shaped, sound files, form containers with pairwise distinct
  names whose files are sound, arrays of supported payloads, and plain objects of
  supported payloads that do not have the shape of an encoded form container. No
  field of an object and no entry of a form container is named \<open>__proto__\<close>.
\<close>

definition clean_type :: "string \<Rightarrow> bool" where
  "clean_type t =
     (t \<noteq> [] \<and> list_all (\<lambda>c. printable c \<and> to_lower c = c \<and> c \<noteq> CHR '','' \<and> c \<noteq> CHR '';'') t)"

definition sound_file :: "jsfile \<Rightarrow> bool" where
  "sound_file f = (file_bytes f \<noteq> [] \<and> clean_type (file_type f))"

fun sound_entry :: "string \<times> form_value \<Rightarrow> bool" where
  "sound_entry (k, FText s) = True"
| "sound_entry (k, FFile f) = sound_file f"

fun supported :: "jsval \<Rightarrow> bool" where
  "supported JUndefined = True"
| "supported JNull = True"
| "supported (JBool b) = True"
| "supported (JNum n) = True"
| "supported (JStr s) = (\<not> blob_shaped s)"
| "supported (JArr xs) = list_all supported xs"
| "supported (JObj kvs) =
     (distinct (map fst kvs) \<and> ''__proto__'' \<notin> set (map fst kvs) \<and>
      \<not> isEncodedFormData (JObj kvs) \<and> list_all (\<lambda>kv. supported (snd kv)) kvs)"
| "supported (JFile f) = sound_file f"
| "supported (JFormData es) =
     (distinct (map fst es) \<and> ''__proto__'' \<notin> set (map fst es) \<and> list_all sound_entry es)"

text \<open>
  Observable equivalence of a payload and what came back for it: the same scalars,
  the same elements and fields in the same order, for a form container the same
  entries under pairwise distinct names (in any order; a file entry with its bytes,
  type and name), and for a file outside a form container the same bytes and type
  under the name \<open>unknown-filename\<close>.
\<close>

fun same_payload :: "jsval \<Rightarrow> jsval \<Rightarrow> bool"
  and same_list :: "jsval list \<Rightarrow> jsval list \<Rightarrow> bool"
  and same_fields :: "(string \<times> jsval) list \<Rightarrow> (string \<times> jsval) list \<Rightarrow> bool" where
  "same_payload (JFile f) v' = (v' = JFile (File ''unknown-filename'' (file_type f) (file_bytes f)))"
| "same_payload (JFormData es) v' =
     (case v' of JFormData es' \<Rightarrow> distinct (map fst es') \<and> set es' = set es | other \<Rightarrow> False)"
| "same_payload (JArr xs) v' = (case v' of JArr ys \<Rightarrow> same_list xs ys | other \<Rightarrow> False)"
| "same_payload (JObj kvs) v' = (case v' of JObj kvs' \<Rightarrow> same_fields kvs kvs' | other \<Rightarrow> False)"
| "same_payload JUndefined v' = (v' = JUndefined)"
| "same_payload JNull v' = (v' = JNull)"
| "same_payload (JBool b) v' = (v' = JBool b)"
| "same_payload (JNum n) v' = (v' = JNum n)"
| "same_payload (JStr s) v' = (v' = JStr s)"
| "same_list [] ys = (ys = [])"
| "same_list (x # xs) ys = (case ys of [] \<Rightarrow> False | y # ys' \<Rightarrow> same_payload x y \<and> same_list xs ys')"
| "same_fields [] kvs' = (kvs' = [])"
| "same_fields (kv # kvs) kvs' =
     (case kvs' of
        [] \<Rightarrow> False
      | kv' # rest \<Rightarrow> fst kv = fst kv' \<and> same_payload (snd kv) (snd kv') \<and> same_fields kvs rest)"

text \<open>
  The value the encoder returns for a supported payload, as a function: in an encoded
  form container the text items come first, then the file items.
\<close>

definition is_text_entry :: "string \<times> form_value \<Rightarrow> bool" where
  "is_text_entry kv = (case snd kv of FText s \<Rightarrow> True | FFile f \<Rightarrow> False)"

definition encoded_entry :: "string \<times> form_value \<Rightarrow> string \<times> jsval" where
  "encoded_entry kv =
     (fst kv, case snd kv of FText s \<Rightarrow> text_item s | FFile f \<Rightarrow> file_item f (readAsDataURL f))"

fun encoded :: "jsval \<Rightarrow> jsval" where
  "encoded (JFile f) = JStr (readAsDataURL f)"
| "encoded (JFormData es) =
     JObj [(''dataType'', JStr ''formData''),
           (''items'', JObj (map encoded_entry
                               (filter is_text_entry es @ filter (\<lambda>kv. \<not> is_text_entry kv) es)))]"
| "encoded (JArr xs) = JArr (map encoded xs)"
| "encoded (JObj kvs) = JObj (map (\<lambda>kv. (fst kv, encoded (snd kv))) kvs)"
| "encoded v = v"

text \<open>A payload with a bit of everything.\<close>

definition demo_payload :: jsval where
  "demo_payload =
     JObj [(''n'', JNum 1), (''s'', JStr ''Hello''), (''a'', JArr [JNull, JBool True]),
           (''f'', JFile (File ''a.txt'' ''text/plain'' ''Hi'')),
           (''form'', JFormData [(''pic'', FFile (File ''p.png'' ''image/png'' ''abc'')),
                                 (''t'', FText ''x'')])]"

definition demo_payload_back :: jsval where
  "demo_payload_back =
     JObj [(''n'', JNum 1), (''s'', JStr ''Hello''), (''a'', JArr [JNull, JBool True]),
           (''f'', JFile (File ''unknown-filename'' ''text/plain'' ''Hi'')),
           (''form'', JFormData [(''t'', FText ''x''),
                                 (''pic'', FFile (File ''p.png'' ''image/png'' ''abc''))])]"

section \<open>The messaging core (bom-message.ts)\<close>

subsection \<open>Envelopes\<close>

definition isMessageData :: "jsval \<Rightarrow> bool" where
  "isMessageData data =
     (typeof data = ''object'' \<and> data \<noteq> JNull \<and>
      (case get_prop data ''via'' of
         None \<Rightarrow> False
       | Some v \<Rightarrow> typeof v = ''string'' \<and> v = JStr ''bom-message'') \<and>
      (case get_prop data ''type'' of
         None \<Rightarrow> False
       | Some t \<Rightarrow> typeof t = ''string'' \<and> t \<in> set [JStr ''request'', JStr ''response'']) \<and>
      (case get_prop data ''messageId'' of None \<Rightarrow> False | Some m \<Rightarrow> typeof m = ''string'') \<and>
      (case get_prop data ''from'' of None \<Rightarrow> False | Some f \<Rightarrow> typeof f = ''string'') \<and>
      (case get_prop data ''to'' of None \<Rightarrow> False | Some t \<Rightarrow> typeof t = ''string'') \<and>
      get_prop data ''payload'' \<noteq> None \<and>
      (case get_prop data ''timestamp'' of None \<Rightarrow> False | Some t \<Rightarrow> typeof t = ''number''))"

text \<open>The fields of a value that has passed \<open>isMessageData\<close>.\<close>

definition string_prop :: "jsval \<Rightarrow> string \<Rightarrow> string" where
  "string_prop v k = (case get_prop v k of Some (JStr s) \<Rightarrow> s | other \<Rightarrow> [])"

definition number_prop :: "jsval \<Rightarrow> string \<Rightarrow> int" where
  "number_prop v k = (case get_prop v k of Some (JNum n) \<Rightarrow> n | other \<Rightarrow> 0)"

record MessageData =
  msg_type :: string
  messageId :: string
  msg_from :: string
  msg_to :: string
  payload :: jsval
  timestamp :: int

definition as_MessageData :: "jsval \<Rightarrow> MessageData" where
  "as_MessageData data =
     \<lparr>msg_type = string_prop data ''type'', messageId = string_prop data ''messageId'',
      msg_from = string_prop data ''from'', msg_to = string_prop data ''to'',
      payload = prop_or_undefined data ''payload'', timestamp = number_prop data ''timestamp''\<rparr>"

text \<open>The object literal that \<open>sendMessage\<close> and \<open>reply\<close> hand to \<open>postMessage\<close>.\<close>

definition message_object :: "MessageData \<Rightarrow> jsval" where
  "message_object m =
     JObj [(''via'', JStr ''bom-message''), (''type'', JStr (msg_type m)),
           (''messageId'', JStr (messageId m)), (''from'', JStr (msg_from m)),
           (''to'', JStr (msg_to m)), (''payload'', payload m),
           (''timestamp'', JNum (timestamp m))]"

subsection \<open>State\<close>

text \<open>
  Entity objects live in a heap and are known by their position in it, so that "the
  same instance" is equality of references. A handler is known by the identity of the
  subscribed function. A resolver stored in \<open>pendingRequests\<close> is known by the promise
  it settles. \<open>console.log\<close> output, guarded everywhere by the verbose flags, is left out.
\<close>

record Entity =
  entity_id :: string
  messageHandlers :: "nat list"
  pendingRequests :: "string \<Rightarrow> nat option"
  verbose :: bool

datatype emitter = GlobalEmitter | CustomEmitter string

datatype promise_state = Pending | Fulfilled jsval | Rejected error

text \<open>One call of a subscribed handler: the handler, the sender it is given, the
  decoded payload, and what its \<open>reply\<close> closure has captured.\<close>

record invocation =
  inv_handler :: nat
  inv_sender :: string
  inv_payload :: jsval
  inv_entity :: nat
  inv_messageId :: string

text \<open>
  The static members of the class, the heap, and the surroundings: whether the
  listener is attached to the emitter, the messages handed to \<open>postMessage\<close>, the
  handler calls made, the errors that escaped an asynchronous function (unhandled
  rejections), the identifiers \<open>crypto.randomUUID\<close> will return, the clock, and
  whether the process has a global object that is a message emitter.
\<close>

record world =
  sourceEntityIdSet :: "string set"
  instances :: "string \<Rightarrow> nat option"
  isInitialized :: bool
  globalVerbose :: bool
  messageEmitter :: "emitter option"
  listening :: bool
  heap :: "Entity list"
  promises :: "promise_state list"
  posted :: "jsval list"
  invoked :: "invocation list"
  unhandled :: "error list"
  uuids :: "nat \<Rightarrow> string"
  uuid_next :: nat
  now :: int
  global_emitter :: bool

definition initial_world :: "(nat \<Rightarrow> string) \<Rightarrow> int \<Rightarrow> bool \<Rightarrow> world" where
  "initial_world ids clock has_global =
     \<lparr>sourceEntityIdSet = {}, instances = Map.empty, isInitialized = False,
      globalVerbose = False, messageEmitter = None, listening = False, heap = [],
      promises = [], posted = [], invoked = [], unhandled = [], uuids = ids,
      uuid_next = 0, now = clock, global_emitter = has_global\<rparr>"

subsection \<open>The registry: static members\<close>

definition createMessageEmitter :: "bool \<Rightarrow> bool \<Rightarrow> string \<Rightarrow> error + emitter" where
  "createMessageEmitter has_global enableAuto key =
     (if has_global then Inr GlobalEmitter
      else if \<not> enableAuto then Inl (Error ''No valid message emitter found'')
      else Inr (CustomEmitter key))"

record init_props =
  sourceEntityIds :: "string list option"
  enableAutoCustomEmitter :: "bool option"
  globalEmitterKey :: "string option"
  init_verbose :: "bool option"

definition default_to :: "'a \<Rightarrow> 'a option \<Rightarrow> 'a" where
  "default_to d v = (case v of None \<Rightarrow> d | Some x \<Rightarrow> x)"

text \<open>\<open>Entity.init\<close>; the first component is the error thrown, if any.\<close>

definition Entity_init :: "init_props option \<Rightarrow> world \<Rightarrow> error option \<times> world" where
  "Entity_init props w =
     (let ids = (case props of None \<Rightarrow> None | Some p \<Rightarrow> sourceEntityIds p);
          auto = default_to True (case props of None \<Rightarrow> None | Some p \<Rightarrow> enableAutoCustomEmitter p);
          key = default_to ''bmCustomEventEmitter'' (case props of None \<Rightarrow> None | Some p \<Rightarrow> globalEmitterKey p);
          verb = default_to False (case props of None \<Rightarrow> None | Some p \<Rightarrow> init_verbose p)
      in if isInitialized w then (None, w)
         else
           (let w1 = w\<lparr>instances := Map.empty,
                       sourceEntityIdSet := (case ids of None \<Rightarrow> {} | Some xs \<Rightarrow> set xs),
                       isInitialized := True, globalVerbose := verb\<rparr>
            in case createMessageEmitter (global_emitter w) auto key of
                 Inl e \<Rightarrow> (Some e, w1)
               | Inr em \<Rightarrow> (None, w1\<lparr>messageEmitter := Some em, listening := True\<rparr>)))"

text \<open>\<open>Entity.destroy\<close> (static).\<close>

definition Entity_destroy :: "world \<Rightarrow> world" where
  "Entity_destroy w =
     w\<lparr>listening := (case messageEmitter w of None \<Rightarrow> listening w | Some em \<Rightarrow> False),
       instances := Map.empty, sourceEntityIdSet := {}, isInitialized := False\<rparr>"

definition getById :: "world \<Rightarrow> string \<Rightarrow> nat option" where
  "getById w ident = instances w ident"

subsection \<open>Entities\<close>

record entity_props =
  props_verbose :: "bool option"
  props_errorOnDuplicate :: "bool option"

text \<open>The error of a duplicate id.\<close>

definition duplicate_error :: "string \<Rightarrow> error" where
  "duplicate_error ident =
     Error (''Entity with ID '' @ [CHR 0x27] @ ident @ [CHR 0x27] @ '' already exists.'')"

text \<open>
  \<open>new Entity(id, props)\<close>: the object under construction is allocated first; when the
  id is taken the constructor throws or returns the registered object, and the fresh
  one is left unreferenced.
\<close>

definition new_Entity :: "string \<Rightarrow> entity_props option \<Rightarrow> world \<Rightarrow> (error + nat) \<times> world" where
  "new_Entity ident props w =
     (let verb = (case props of None \<Rightarrow> None | Some p \<Rightarrow> props_verbose p);
          errorOnDuplicate = default_to False (case props of None \<Rightarrow> None | Some p \<Rightarrow> props_errorOnDuplicate p);
          this = length (heap w);
          w1 = w\<lparr>heap := heap w @ [\<lparr>entity_id = ident, messageHandlers = [],
                                     pendingRequests = Map.empty,
                                     verbose = default_to (globalVerbose w) verb\<rparr>]\<rparr>
      in case instances w1 ident of
           Some existing \<Rightarrow>
             (if errorOnDuplicate
              then (Inl (duplicate_error ident), w1)
              else (Inr existing, w1))
         | None \<Rightarrow> (Inr this, w1\<lparr>instances := (instances w1)(ident \<mapsto> this)\<rparr>))"

definition update_entity :: "nat \<Rightarrow> (Entity \<Rightarrow> Entity) \<Rightarrow> world \<Rightarrow> world" where
  "update_entity this f w = w\<lparr>heap := (heap w)[this := f (heap w ! this)]\<rparr>"

text \<open>\<open>entity.destroy()\<close>.\<close>

definition destroy :: "nat \<Rightarrow> world \<Rightarrow> world" where
  "destroy this w = w\<lparr>instances := (instances w)(entity_id (heap w ! this) := None)\<rparr>"

definition subscribeMessage :: "nat \<Rightarrow> nat \<Rightarrow> world \<Rightarrow> world" where
  "subscribeMessage this handler w =
     update_entity this (\<lambda>e. e\<lparr>messageHandlers := messageHandlers e @ [handler]\<rparr>) w"

text \<open>The function \<open>subscribeMessage\<close> returns.\<close>

definition unsubscribe :: "nat \<Rightarrow> nat \<Rightarrow> world \<Rightarrow> world" where
  "unsubscribe this handler w =
     update_entity this (\<lambda>e. e\<lparr>messageHandlers := filter (\<lambda>h. h \<noteq> handler) (messageHandlers e)\<rparr>) w"

text \<open>Settling a promise: only a pending one changes.\<close>

definition settle :: "nat \<Rightarrow> promise_state \<Rightarrow> world \<Rightarrow> world" where
  "settle p outcome w =
     (if p < length (promises w) \<and> promises w ! p = Pending
      then w\<lparr>promises := (promises w)[p := outcome]\<rparr> else w)"

text \<open>\<open>postMessage\<close> on the emitter of the registry; without one the call is a
  \<open>TypeError\<close> inside an asynchronous function.\<close>

definition post :: "jsval \<Rightarrow> world \<Rightarrow> world" where
  "post message w =
     (case messageEmitter w of
        None \<Rightarrow> w\<lparr>unhandled := unhandled w @ [TypeError ''cannot read postMessage'']\<rparr>
      | Some em \<Rightarrow> w\<lparr>posted := posted w @ [message]\<rparr>)"

text \<open>
  \<open>sendMessage\<close>: the steps of the executor in source order. The suspension at the
  \<open>await\<close> is not modelled: the call runs to its end before anything else happens.
  The result is the promise returned.
\<close>

definition sendMessage :: "nat \<Rightarrow> string \<Rightarrow> jsval \<Rightarrow> world \<Rightarrow> nat \<times> world" where
  "sendMessage this targetId message w =
     (let p = length (promises w);
          w1 = w\<lparr>promises := promises w @ [Pending]\<rparr>;
          w2 = (if getById w1 (entity_id (heap w1 ! this)) = None
                then settle p (Rejected (Error ''Entity is destroyed'')) w1 else w1);
          ident = uuids w2 (uuid_next w2);
          w3 = w2\<lparr>uuid_next := Suc (uuid_next w2)\<rparr>;
          w4 = update_entity this (\<lambda>e. e\<lparr>pendingRequests := (pendingRequests e)(ident \<mapsto> p)\<rparr>) w3
      in case encodeNestedFormData message of
           Inl e \<Rightarrow> (p, w4\<lparr>unhandled := unhandled w4 @ [e]\<rparr>)
         | Inr wire \<Rightarrow>
             (p, post (message_object
                        \<lparr>msg_type = ''request'', messageId = ident,
                         msg_from = entity_id (heap w4 ! this), msg_to = targetId,
                         payload = wire, timestamp = now w4\<rparr>) w4))"

text \<open>The \<open>reply\<close> closure given to a handler.\<close>

definition reply :: "invocation \<Rightarrow> jsval \<Rightarrow> world \<Rightarrow> world" where
  "reply call response w =
     (case encodeNestedFormData response of
        Inl e \<Rightarrow> w\<lparr>unhandled := unhandled w @ [e]\<rparr>
      | Inr wire \<Rightarrow>
          post (message_object
                 \<lparr>msg_type = ''response'', messageId = inv_messageId call,
                  msg_from = entity_id (heap w ! inv_entity call), msg_to = inv_sender call,
                  payload = wire, timestamp = now w\<rparr>) w)"

text \<open>
  The \<open>forEach\<close> over the handlers of a request: each callback decodes the payload and
  then calls its handler; when decoding throws, the callback ends there with an
  unhandled rejection. What a handler does when called is application code.
\<close>

definition handler_call :: "nat \<Rightarrow> MessageData \<Rightarrow> jsval \<Rightarrow> nat \<Rightarrow> invocation" where
  "handler_call this data decoded handler =
     \<lparr>inv_handler = handler, inv_sender = msg_from data, inv_payload = decoded,
      inv_entity = this, inv_messageId = messageId data\<rparr>"

fun call_handlers :: "nat list \<Rightarrow> nat \<Rightarrow> MessageData \<Rightarrow> world \<Rightarrow> world" where
  "call_handlers [] this data w = w"
| "call_handlers (handler # rest) this data w =
     call_handlers rest this data
       (case decodeNestedFormData (payload data) of
          Inl e \<Rightarrow> w\<lparr>unhandled := unhandled w @ [e]\<rparr>
        | Inr decoded \<Rightarrow> w\<lparr>invoked := invoked w @ [handler_call this data decoded handler]\<rparr>)"

definition handleIncomingMessage :: "nat \<Rightarrow> MessageData \<Rightarrow> world \<Rightarrow> world" where
  "handleIncomingMessage this data w =
     (if msg_from data = entity_id (heap w ! this) then w
      else if msg_type data = ''request'' then
        call_handlers (messageHandlers (heap w ! this)) this data w
      else if msg_type data = ''response'' then
        (case pendingRequests (heap w ! this) (messageId data) of
           Some resolver \<Rightarrow>
             (case decodeNestedFormData (payload data) of
                Inl e \<Rightarrow> w\<lparr>unhandled := unhandled w @ [e]\<rparr>
              | Inr decoded \<Rightarrow>
                  update_entity this
                    (\<lambda>e. e\<lparr>pendingRequests := (pendingRequests e)(messageId data := None)\<rparr>)
                    (settle resolver (Fulfilled decoded) w))
         | None \<Rightarrow> w)
      else w)"

text \<open>\<open>Entity.onWindowMessage\<close>, the listener attached to the emitter.\<close>

definition onWindowMessage :: "jsval \<Rightarrow> world \<Rightarrow> world" where
  "onWindowMessage event w =
     (if \<not> truthy event \<or> typeof event \<noteq> ''object'' then w
      else (case get_prop event ''data'' of
              None \<Rightarrow> w
            | Some data \<Rightarrow>
                (if \<not> truthy data \<or> \<not> isMessageData data then w
                 else if msg_from (as_MessageData data) \<in> sourceEntityIdSet w then w
                 else (case getById w (msg_to (as_MessageData data)) of
                         None \<Rightarrow> w
                       | Some targetEntity \<Rightarrow>
                           handleIncomingMessage targetEntity (as_MessageData data) w))))"

text \<open>The emitter delivers an event to the listener only while it is attached.\<close>

definition deliver :: "jsval \<Rightarrow> world \<Rightarrow> world" where
  "deliver event w = (if listening w then onWindowMessage event w else w)"

subsection \<open>Scenarios\<close>

text \<open>Constructing one entity per identifier, in order, with default options.\<close>

fun construct_all :: "string list \<Rightarrow> world \<Rightarrow> (error + nat) list \<times> world" where
  "construct_all [] w = ([], w)"
| "construct_all (ident # rest) w =
     (let r = new_Entity ident None w; rs = construct_all rest (snd r)
      in (fst r # fst rs, snd rs))"

text \<open>
  The invalid envelopes, in the words of the specification: the protocol tag is
  missing, the kind is not recognised, \<open>messageId\<close>, \<open>from\<close> or \<open>to\<close> is not a string,
  the timestamp is not a number, or there is no payload.
\<close>

definition is_string :: "jsval option \<Rightarrow> bool" where
  "is_string v = (case v of Some (JStr s) \<Rightarrow> True | other \<Rightarrow> False)"

definition is_number :: "jsval option \<Rightarrow> bool" where
  "is_number v = (case v of Some (JNum n) \<Rightarrow> True | other \<Rightarrow> False)"

definition invalid_envelope :: "jsval \<Rightarrow> bool" where
  "invalid_envelope data =
     (get_prop data ''via'' \<noteq> Some (JStr ''bom-message'')
      \<or> (get_prop data ''type'' \<noteq> Some (JStr ''request'')
          \<and> get_prop data ''type'' \<noteq> Some (JStr ''response''))
      \<or> \<not> is_string (get_prop data ''messageId'')
      \<or> \<not> is_string (get_prop data ''from'')
      \<or> \<not> is_string (get_prop data ''to'')
      \<or> \<not> is_number (get_prop data ''timestamp'')
      \<or> get_prop data ''payload'' = None)"

text \<open>A small running system: the registry initialised with defaults in a process
  without a global emitter, entity \<open>a\<close> with two handlers, entity \<open>b\<close> with none.\<close>

definition demo_ids :: "nat \<Rightarrow> string" where
  "demo_ids n = ''id-'' @ show_nat n"

definition demo_init :: world where
  "demo_init = snd (Entity_init None (initial_world demo_ids 1700000000000 False))"

definition demo_world :: world where
  "demo_world =
     snd (new_Entity ''b'' None
       (subscribeMessage 0 11 (subscribeMessage 0 10 (snd (new_Entity ''a'' None demo_init)))))"

text \<open>Entity \<open>a\<close> has asked \<open>b\<close> something and waits for the answer.\<close>

definition demo_sent :: world where
  "demo_sent = snd (sendMessage 0 ''b'' (JStr ''Hello'') demo_world)"

text \<open>Entity \<open>a\<close> was destroyed and a second entity was then constructed under its id.\<close>

definition demo_reused :: world where
  "demo_reused = snd (new_Entity ''a'' None (destroy 0 demo_world))"

text \<open>A form container holding a file without bytes, and what the encoder returns
  for it.\<close>

definition empty_file_form :: jsval where
  "empty_file_form = JFormData [(''f'', FFile (File ''empty.txt'' ''text/plain'' []))]"

definition empty_file_payload :: jsval where
  "empty_file_payload =
     JObj [(''dataType'', JStr ''formData''),
           (''items'', JObj [(''f'', JObj [(''dataType'', JStr ''file''),
                                           (''fileName'', JStr ''empty.txt''),
                                           (''fileType'', JStr ''text/plain''),
                                           (''fileSize'', JNum 0),
                                           (''content'', JStr ''data:text/plain;base64,'')])])]"

definition demo_message :: "string \<Rightarrow> string \<Rightarrow> string \<Rightarrow> string \<Rightarrow> jsval \<Rightarrow> MessageData" where
  "demo_message kind ident sender target content =
     \<lparr>msg_type = kind, messageId = ident, msg_from = sender, msg_to = target,
      payload = content, timestamp = 1700000000001\<rparr>"

section \<open>Facts about the running example\<close>

lemmas demo_defs =
  demo_world_def demo_init_def Entity_init_def initial_world_def new_Entity_def
  subscribeMessage_def update_entity_def default_to_def createMessageEmitter_def

lemma demo_heap:
  "heap demo_world =
     [\<lparr>entity_id = ''a'', messageHandlers = [10, 11], pendingRequests = Map.empty, verbose = False\<rparr>,
      \<lparr>entity_id = ''b'', messageHandlers = [], pendingRequests = Map.empty, verbose = False\<rparr>]"
  by (simp add: demo_defs)

lemma demo_instances:
  "instances demo_world = [''a'' \<mapsto> 0, ''b'' \<mapsto> 1]"
  by (simp add: demo_defs)

lemma demo_registry:
  "sourceEntityIdSet demo_world = {}" "isInitialized demo_world" "listening demo_world"
  "messageEmitter demo_world = Some (CustomEmitter ''bmCustomEventEmitter'')"
  "promises demo_world = []" "posted demo_world = []" "invoked demo_world = []"
  "unhandled demo_world = []" "uuid_next demo_world = 0" "uuids demo_world = demo_ids"
  "now demo_world = 1700000000000"
  by (simp_all add: demo_defs)

lemma demo_ids_0: "demo_ids 0 = ''id-0''"
  by code_simp

lemma empty_file_encoded: "encodeNestedFormData empty_file_form = Inr empty_file_payload"
  by code_simp

lemma empty_file_decode:
  "decodeNestedFormData empty_file_payload = Inl (Error ''Invalid Base64 string format.'')"
  by code_simp

lemma demo_sent_facts:
  "promises demo_sent = [Pending]"
  "pendingRequests (heap demo_sent ! 0) ''id-0'' = Some 0"
  "entity_id (heap demo_sent ! 0) = ''a''"
  "length (heap demo_sent) = 2"
  "posted demo_sent =
     [message_object \<lparr>msg_type = ''request'', messageId = ''id-0'', msg_from = ''a'',
                      msg_to = ''b'', payload = JStr ''Hello'', timestamp = 1700000000000\<rparr>]"
  by (simp_all add: demo_sent_def sendMessage_def Let_def getById_def demo_heap demo_instances
        demo_registry settle_def update_entity_def post_def demo_ids_0)

section \<open>Encoding never fails\<close>

lemma encodeFile_ok: "encodeFile f = Inr (readAsDataURL f)"
  by (simp add: encodeFile_def readAsDataURL_def)

lemma store_files_ok: "\<exists>items'. store_files es items = Inr items'"
  by (induction es items rule: store_files.induct) (simp_all add: encodeFile_ok)

lemma encodeFormData_ok: "\<exists>v. encodeFormData es = Inr v"
proof -
  obtain items where "store_files es (store_texts es []) = Inr items"
    using store_files_ok by blast
  then show ?thesis by (simp add: encodeFormData_def)
qed

lemma encode_ok:
  "\<exists>v'. encodeNestedFormData v = Inr v'"
  "\<exists>ys. encode_all xs = Inr ys"
  "\<exists>acc'. encode_entries kvs acc = Inr acc'"
proof (induction v and xs and kvs acc rule: encodeNestedFormData_encode_all_encode_entries.induct)
  case (1 f)
  then show ?case by (simp add: encodeFile_ok)
next
  case (2 es)
  then show ?case by (simp add: encodeFormData_ok)
next
  case (3 xs)
  then show ?case by auto
next
  case (4 kvs)
  then show ?case by auto
next
  case (11 x xs)
  then show ?case by auto
next
  case (13 kv kvs encodedObject)
  then obtain y where y: "encodeNestedFormData (snd kv) = Inr y" by auto
  with 13(2) [OF y] show ?case by auto
qed simp_all

section \<open>The self-message guard\<close>

text \<open>
  Claim C9. An entity that is handed an envelope whose \<open>from\<close> is its own id returns at
  once: whatever the state, the kind of the envelope and the handlers subscribed, the
  whole state is unchanged, so no handler has been called and nothing was posted.
\<close>

theorem self_message_guard:
  "msg_from data = entity_id (heap w ! this) \<Longrightarrow> handleIncomingMessage this data w = w"
  by (simp add: handleIncomingMessage_def)

theorem self_message_guard_witness:
  "msg_from (demo_message ''request'' ''m1'' ''a'' ''a'' (JStr ''x'')) = entity_id (heap demo_world ! 0)
   \<and> messageHandlers (heap demo_world ! 0) = [10, 11]
   \<and> handleIncomingMessage 0 (demo_message ''request'' ''m1'' ''a'' ''a'' (JStr ''x'')) demo_world
       = demo_world"
proof -
  have h: "msg_from (demo_message ''request'' ''m1'' ''a'' ''a'' (JStr ''x''))
             = entity_id (heap demo_world ! 0)"
    by (simp add: demo_message_def demo_heap)
  from self_message_guard [OF h] h show ?thesis
    by (simp add: demo_heap)
qed

section \<open>Dispatch\<close>

text \<open>The type guard accepts exactly the values that are not invalid envelopes.\<close>

lemma isMessageData_iff: "isMessageData data \<longleftrightarrow> \<not> invalid_envelope data"
proof (cases data)
  case (JObj kvs)
  show ?thesis
    unfolding JObj isMessageData_def invalid_envelope_def is_string_def is_number_def
    by (auto split: option.splits jsval.splits)
qed (simp_all add: isMessageData_def invalid_envelope_def)

text \<open>
  Claim C4. A raw event is dropped by the listener, with the whole state unchanged (no
  handler called, nothing posted, no error recorded), when it carries no \<open>data\<close>, or
  its data is an invalid envelope, or the sender is in the ignored-source set, or no
  entity is registered under the target id. The same holds when the event comes
  through the emitter.
\<close>

theorem dispatch_drops_silently:
  assumes "get_prop event ''data'' = None
           \<or> (\<exists>data. get_prop event ''data'' = Some data
                 \<and> (invalid_envelope data
                    \<or> string_prop data ''from'' \<in> sourceEntityIdSet w
                    \<or> getById w (string_prop data ''to'') = None))"
  shows "onWindowMessage event w = w \<and> deliver event w = w"
proof -
  have "onWindowMessage event w = w"
    using assms
    by (auto simp: onWindowMessage_def isMessageData_iff as_MessageData_def)
  then show ?thesis by (simp add: deliver_def)
qed

theorem dispatch_drops_silently_witness:
  "invalid_envelope (JObj [(''invalid'', JStr ''format'')])
   \<and> onWindowMessage (JObj [(''data'', JObj [(''invalid'', JStr ''format'')])]) demo_world = demo_world
   \<and> \<not> invalid_envelope (message_object (demo_message ''request'' ''m1'' ''b'' ''nobody'' (JStr ''x'')))
   \<and> getById demo_world ''nobody'' = None
   \<and> deliver (JObj [(''data'', message_object (demo_message ''request'' ''m1'' ''b'' ''nobody'' (JStr ''x'')))])
        demo_world = demo_world
   \<and> getById (demo_world\<lparr>sourceEntityIdSet := {''b''}\<rparr>) ''a'' = Some 0
   \<and> onWindowMessage (JObj [(''data'', message_object (demo_message ''request'' ''m1'' ''b'' ''a'' (JStr ''x'')))])
        (demo_world\<lparr>sourceEntityIdSet := {''b''}\<rparr>) = demo_world\<lparr>sourceEntityIdSet := {''b''}\<rparr>"
proof -
  let ?bad = "JObj [(''invalid'', JStr ''format'')]"
  let ?lost = "message_object (demo_message ''request'' ''m1'' ''b'' ''nobody'' (JStr ''x''))"
  let ?echo = "message_object (demo_message ''request'' ''m1'' ''b'' ''a'' (JStr ''x''))"
  let ?w = "demo_world\<lparr>sourceEntityIdSet := {''b''}\<rparr>"
  have bad: "invalid_envelope ?bad"
    by (simp add: invalid_envelope_def)
  have ok: "\<not> invalid_envelope ?lost"
    by (simp add: invalid_envelope_def message_object_def demo_message_def is_string_def is_number_def)
  have lost: "getById demo_world (string_prop ?lost ''to'') = None"
    by (simp add: getById_def demo_instances string_prop_def message_object_def demo_message_def)
  have echo: "string_prop ?echo ''from'' \<in> sourceEntityIdSet ?w"
    by (simp add: string_prop_def message_object_def demo_message_def)
  have 1: "onWindowMessage (JObj [(''data'', ?bad)]) demo_world = demo_world"
    using dispatch_drops_silently [of "JObj [(''data'', ?bad)]" demo_world] bad by simp
  have 2: "deliver (JObj [(''data'', ?lost)]) demo_world = demo_world"
    using dispatch_drops_silently [of "JObj [(''data'', ?lost)]" demo_world] lost by simp
  have 3: "onWindowMessage (JObj [(''data'', ?echo)]) ?w = ?w"
    using dispatch_drops_silently [of "JObj [(''data'', ?echo)]" ?w] echo by simp
  have 4: "getById demo_world ''nobody'' = None" "getById ?w ''a'' = Some 0"
    by (simp_all add: getById_def demo_instances)
  from bad ok 1 2 3 4 show ?thesis by simp
qed

section \<open>Construction and lookup\<close>

lemma new_Entity_registered:
  assumes "instances w ident = Some existing"
  shows "fst (new_Entity ident props w) =
           (if (case props of None \<Rightarrow> None | Some p \<Rightarrow> props_errorOnDuplicate p) = Some True
            then Inl (duplicate_error ident) else Inr existing)"
    and "instances (snd (new_Entity ident props w)) = instances w"
    and "take (length (heap w)) (heap (snd (new_Entity ident props w))) = heap w"
  using assms
  by (auto simp: new_Entity_def default_to_def Let_def split: option.splits)

lemma new_Entity_fresh:
  assumes "instances w ident = None"
  shows "fst (new_Entity ident props w) = Inr (length (heap w))"
    and "instances (snd (new_Entity ident props w)) = (instances w)(ident \<mapsto> length (heap w))"
    and "length (heap (snd (new_Entity ident props w))) = Suc (length (heap w))"
    and "entity_id (heap (snd (new_Entity ident props w)) ! length (heap w)) = ident"
  using assms by (auto simp: new_Entity_def Let_def)

text \<open>Constructing entities under distinct unused ids allocates consecutive objects,
  registers each under its id and leaves every other id as it was.\<close>

lemma construct_all_fresh:
  "distinct ids \<Longrightarrow> \<forall>i \<in> set ids. instances w i = None \<Longrightarrow>
     fst (construct_all ids w) = map Inr [length (heap w) ..< length (heap w) + length ids]
     \<and> map (getById (snd (construct_all ids w))) ids
         = map Some [length (heap w) ..< length (heap w) + length ids]
     \<and> (\<forall>j. j \<notin> set ids \<longrightarrow> getById (snd (construct_all ids w)) j = getById w j)
     \<and> length (heap (snd (construct_all ids w))) = length (heap w) + length ids"
proof (induction ids arbitrary: w)
  case Nil
  then show ?case by simp
next
  case (Cons a ids)
  let ?w1 = "snd (new_Entity a None w)"
  have a: "instances w a = None" using Cons.prems by simp
  have inst1: "instances ?w1 = (instances w)(a \<mapsto> length (heap w))"
    by (rule new_Entity_fresh(2) [OF a])
  have len1: "length (heap ?w1) = Suc (length (heap w))"
    by (rule new_Entity_fresh(3) [OF a])
  have d: "distinct ids" and na: "a \<notin> set ids" using Cons.prems by auto
  have free: "\<forall>i \<in> set ids. instances ?w1 i = None"
    using Cons.prems na by (auto simp: inst1)
  note IH = Cons.IH [OF d free]
  have ga: "getById (snd (construct_all ids ?w1)) a = Some (length (heap w))"
    using IH na by (simp add: getById_def inst1)
  show ?case
    using IH ga new_Entity_fresh(1) [OF a, of None] na
    by (auto simp: Let_def len1 upt_rec [of "length (heap w)"] getById_def inst1)
qed

text \<open>
  Claim C5. Constructing an entity under an id that is registered returns the
  registered instance itself (and leaves the registry as it was) unless
  \<open>errorOnDuplicate\<close> is set, in which case it fails with the duplicate-id error.
  Entities constructed under pairwise distinct unused ids are pairwise distinct
  instances, and \<open>getById\<close> of each id is exactly the instance its construction
  returned.
\<close>

theorem construction_and_lookup:
  "(instances w ident = Some existing \<longrightarrow>
      fst (new_Entity ident props w) =
        (if (case props of None \<Rightarrow> None | Some p \<Rightarrow> props_errorOnDuplicate p) = Some True
         then Inl (duplicate_error ident) else Inr existing)
      \<and> instances (snd (new_Entity ident props w)) = instances w
      \<and> take (length (heap w)) (heap (snd (new_Entity ident props w))) = heap w)
   \<and> (distinct ids \<and> (\<forall>i \<in> set ids. instances w i = None) \<longrightarrow>
        map Some (fst (construct_all ids w))
          = map (\<lambda>i. map_option Inr (getById (snd (construct_all ids w)) i)) ids
        \<and> distinct (fst (construct_all ids w)))"
proof (intro conjI impI)
  assume r: "instances w ident = Some existing"
  show "fst (new_Entity ident props w) =
        (if (case props of None \<Rightarrow> None | Some p \<Rightarrow> props_errorOnDuplicate p) = Some True
         then Inl (duplicate_error ident) else Inr existing)"
    by (rule new_Entity_registered(1) [OF r])
  show "instances (snd (new_Entity ident props w)) = instances w"
    by (rule new_Entity_registered(2) [OF r])
  show "take (length (heap w)) (heap (snd (new_Entity ident props w))) = heap w"
    by (rule new_Entity_registered(3) [OF r])
next
  assume h: "distinct ids \<and> (\<forall>i \<in> set ids. instances w i = None)"
  let ?n = "length (heap w)"
  have res: "fst (construct_all ids w) = map Inr [?n ..< ?n + length ids]"
    and look: "map (getById (snd (construct_all ids w))) ids = map Some [?n ..< ?n + length ids]"
    using construct_all_fresh [of ids w] h by simp_all
  have "map Some (fst (construct_all ids w)) = map (map_option Inr) (map Some [?n ..< ?n + length ids])"
    by (simp add: res)
  also have "\<dots> = map (map_option Inr) (map (getById (snd (construct_all ids w))) ids)"
    by (simp only: look)
  also have "\<dots> = map (\<lambda>i. map_option Inr (getById (snd (construct_all ids w)) i)) ids"
    by (simp add: comp_def)
  finally show "map Some (fst (construct_all ids w))
          = map (\<lambda>i. map_option Inr (getById (snd (construct_all ids w)) i)) ids" .
  show "distinct (fst (construct_all ids w))"
    by (simp add: res distinct_map)
qed

theorem construction_and_lookup_witness:
  "instances demo_world ''a'' = Some 0
   \<and> fst (new_Entity ''a'' None demo_world) = Inr 0
   \<and> fst (new_Entity ''a'' (Some \<lparr>props_verbose = None, props_errorOnDuplicate = Some True\<rparr>) demo_world)
       = Inl (duplicate_error ''a'')
   \<and> distinct [''c'', ''d''] \<and> instances demo_world ''c'' = None \<and> instances demo_world ''d'' = None
   \<and> map Some (fst (construct_all [''c'', ''d''] demo_world))
       = map (\<lambda>i. map_option Inr (getById (snd (construct_all [''c'', ''d''] demo_world)) i)) [''c'', ''d'']"
proof -
  have a: "instances demo_world ''a'' = Some 0"
    by (simp add: demo_instances)
  have free: "distinct [''c'', ''d''] \<and> (\<forall>i \<in> set [''c'', ''d'']. instances demo_world i = None)"
    by (simp add: demo_instances)
  from construction_and_lookup [of demo_world "''a''" 0 None "[''c'', ''d'']"] a free
  have 1: "fst (new_Entity ''a'' None demo_world) = Inr 0"
    and 3: "map Some (fst (construct_all [''c'', ''d''] demo_world))
       = map (\<lambda>i. map_option Inr (getById (snd (construct_all [''c'', ''d''] demo_world)) i)) [''c'', ''d'']"
    by simp_all
  from construction_and_lookup
         [of demo_world "''a''" 0 "Some \<lparr>props_verbose = None, props_errorOnDuplicate = Some True\<rparr>" "[]"] a
  have 2: "fst (new_Entity ''a'' (Some \<lparr>props_verbose = None, props_errorOnDuplicate = Some True\<rparr>) demo_world)
       = Inl (duplicate_error ''a'')"
    by simp
  from a free 1 2 3 show ?thesis by simp
qed

section \<open>Tearing the registry down and setting it up again\<close>

text \<open>
  Claim C8. \<open>Entity.destroy()\<close> empties the entity map and the ignored-source set,
  clears the initialised flag and, when there is an emitter, detaches the listener.
  On a registry that was never initialised (no emitter, flag clear, and, since
  entities are to be constructed only after \<open>init\<close>, nothing registered) it changes
  nothing. After \<open>destroy()\<close> and then \<open>init()\<close> no id is registered, so
  constructing an entity under any id yields a newly allocated instance, different
  from every instance that existed before; when \<open>init\<close> succeeds the listener is
  attached again.
\<close>

theorem registry_destroy_and_reinit:
  "instances (Entity_destroy w) = Map.empty
   \<and> sourceEntityIdSet (Entity_destroy w) = {}
   \<and> \<not> isInitialized (Entity_destroy w)
   \<and> (messageEmitter w \<noteq> None \<longrightarrow> \<not> listening (Entity_destroy w))
   \<and> (messageEmitter w = None \<and> \<not> isInitialized w \<and> instances w = Map.empty
        \<and> sourceEntityIdSet w = {} \<longrightarrow> Entity_destroy w = w)
   \<and> getById (snd (Entity_init props (Entity_destroy w))) ident = None
   \<and> fst (new_Entity ident eprops (snd (Entity_init props (Entity_destroy w)))) = Inr (length (heap w))
   \<and> (old < length (heap w) \<longrightarrow>
        fst (new_Entity ident eprops (snd (Entity_init props (Entity_destroy w)))) \<noteq> Inr old)
   \<and> (fst (Entity_init props (Entity_destroy w)) = None \<longrightarrow>
        listening (snd (Entity_init props (Entity_destroy w)))
        \<and> isInitialized (snd (Entity_init props (Entity_destroy w))))"
proof -
  let ?w' = "snd (Entity_init props (Entity_destroy w))"
  have inst: "instances ?w' = Map.empty" and hp: "heap ?w' = heap w"
    by (simp_all add: Entity_init_def Entity_destroy_def Let_def split: sum.splits)
  have fresh: "fst (new_Entity ident eprops ?w') = Inr (length (heap w))"
    using new_Entity_fresh(1) [of ?w' ident eprops] by (simp add: inst hp)
  have up: "fst (Entity_init props (Entity_destroy w)) = None \<longrightarrow> listening ?w' \<and> isInitialized ?w'"
    by (auto simp: Entity_init_def Entity_destroy_def Let_def split: sum.splits)
  have other: "old < length (heap w) \<longrightarrow> fst (new_Entity ident eprops ?w') \<noteq> Inr old"
    by (simp add: fresh)
  have look: "getById ?w' ident = None"
    by (simp add: getById_def inst)
  have cleared: "instances (Entity_destroy w) = Map.empty" "sourceEntityIdSet (Entity_destroy w) = {}"
    "\<not> isInitialized (Entity_destroy w)"
    by (simp_all add: Entity_destroy_def)
  have detached: "messageEmitter w \<noteq> None \<longrightarrow> \<not> listening (Entity_destroy w)"
    by (auto simp: Entity_destroy_def)
  have noop: "messageEmitter w = None \<and> \<not> isInitialized w \<and> instances w = Map.empty
        \<and> sourceEntityIdSet w = {} \<longrightarrow> Entity_destroy w = w"
    by (auto simp: Entity_destroy_def)
  from cleared detached noop look fresh other up show ?thesis
    by blast
qed

theorem registry_destroy_and_reinit_witness:
  "messageEmitter demo_world \<noteq> None \<and> listening demo_world
   \<and> \<not> listening (Entity_destroy demo_world)
   \<and> getById demo_world ''a'' = Some 0
   \<and> getById (snd (Entity_init None (Entity_destroy demo_world))) ''a'' = None
   \<and> fst (new_Entity ''a'' None (snd (Entity_init None (Entity_destroy demo_world)))) = Inr 2
   \<and> fst (Entity_init None (Entity_destroy demo_world)) = None
   \<and> listening (snd (Entity_init None (Entity_destroy demo_world)))
   \<and> Entity_destroy (initial_world demo_ids 0 False) = initial_world demo_ids 0 False"
proof -
  have e: "messageEmitter demo_world \<noteq> None" "listening demo_world" "getById demo_world ''a'' = Some 0"
    by (simp_all add: demo_registry getById_def demo_instances)
  have ok: "fst (Entity_init None (Entity_destroy demo_world)) = None"
    by (simp add: Entity_init_def Entity_destroy_def Let_def createMessageEmitter_def default_to_def
          demo_defs)
  have never: "messageEmitter (initial_world demo_ids 0 False) = None
      \<and> \<not> isInitialized (initial_world demo_ids 0 False)
      \<and> instances (initial_world demo_ids 0 False) = Map.empty
      \<and> sourceEntityIdSet (initial_world demo_ids 0 False) = {}"
    by (simp add: initial_world_def)
  have len: "length (heap demo_world) = 2"
    by (simp add: demo_heap)
  from registry_destroy_and_reinit [of demo_world None "''a''" None 0] e ok len
  have 1: "\<not> listening (Entity_destroy demo_world)"
    "getById (snd (Entity_init None (Entity_destroy demo_world))) ''a'' = None"
    "fst (new_Entity ''a'' None (snd (Entity_init None (Entity_destroy demo_world)))) = Inr 2"
    "listening (snd (Entity_init None (Entity_destroy demo_world)))"
    by simp_all
  from registry_destroy_and_reinit [of "initial_world demo_ids 0 False" None "''a''" None 0] never
  have 2: "Entity_destroy (initial_world demo_ids 0 False) = initial_world demo_ids 0 False"
    by blast
  from e ok 1 2 show ?thesis by simp
qed

section \<open>Sending from an entity that is not registered\<close>

lemma settle_keeps_rejected:
  "promises w ! p = Rejected e \<Longrightarrow> promises (settle q outcome w) ! p = Rejected e"
  by (cases "p = q") (auto simp: settle_def)

lemma call_handlers_promises: "promises (call_handlers hs this data w) = promises w"
  by (induction hs arbitrary: w) (auto split: sum.splits)

lemma handleIncomingMessage_keeps_rejected:
  "promises w ! p = Rejected e \<Longrightarrow> promises (handleIncomingMessage r data w) ! p = Rejected e"
  by (auto simp: handleIncomingMessage_def call_handlers_promises update_entity_def
                 settle_keeps_rejected
           split: option.splits sum.splits)

lemma destroy_unregisters:
  "getById (destroy this w) (entity_id (heap (destroy this w) ! this)) = None"
  by (simp add: destroy_def getById_def)

lemma demo_destroyed:
  "heap (destroy 0 demo_world) = heap demo_world"
  "instances (destroy 0 demo_world) = [''b'' \<mapsto> 1]"
  "promises (destroy 0 demo_world) = []" "posted (destroy 0 demo_world) = []"
  "uuids (destroy 0 demo_world) = demo_ids" "uuid_next (destroy 0 demo_world) = 0"
  "now (destroy 0 demo_world) = 1700000000000"
  "messageEmitter (destroy 0 demo_world) = Some (CustomEmitter ''bmCustomEventEmitter'')"
  by (auto simp: destroy_def demo_heap demo_instances demo_registry)

lemma demo_reused_facts:
  "heap demo_reused =
     heap demo_world @ [\<lparr>entity_id = ''a'', messageHandlers = [], pendingRequests = Map.empty, verbose = False\<rparr>]"
  "instances demo_reused ''a'' = Some 2"
  "promises demo_reused = []" "uuids demo_reused = demo_ids" "uuid_next demo_reused = 0"
proof -
  have quiet: "\<not> globalVerbose (destroy 0 demo_world)"
    by (simp add: destroy_def demo_defs)
  show "heap demo_reused =
     heap demo_world @ [\<lparr>entity_id = ''a'', messageHandlers = [], pendingRequests = Map.empty, verbose = False\<rparr>]"
    "instances demo_reused ''a'' = Some 2"
    "promises demo_reused = []" "uuids demo_reused = demo_ids" "uuid_next demo_reused = 0"
    by (simp_all add: demo_reused_def new_Entity_def default_to_def Let_def demo_destroyed
          demo_heap quiet)
qed

text \<open>
  Where the code meets claim C2: when no entity is registered under the id of the
  sending entity at the time of the call, which is the case right after its
  \<open>destroy()\<close>, the promise returned by \<open>sendMessage\<close> is rejected with "Entity is
  destroyed", and no message that arrives afterwards changes that.
\<close>

theorem send_after_destroy_rejects:
  assumes "getById w (entity_id (heap w ! this)) = None"
  shows "promises (snd (sendMessage this targetId message w)) ! fst (sendMessage this targetId message w)
           = Rejected (Error ''Entity is destroyed'')
         \<and> promises (handleIncomingMessage r data (snd (sendMessage this targetId message w)))
               ! fst (sendMessage this targetId message w)
           = Rejected (Error ''Entity is destroyed'')"
proof -
  have rej: "promises (snd (sendMessage this targetId message w)) ! fst (sendMessage this targetId message w)
           = Rejected (Error ''Entity is destroyed'')"
    using assms
    by (auto simp: sendMessage_def Let_def getById_def settle_def update_entity_def post_def
             split: sum.splits option.splits)
  from rej handleIncomingMessage_keeps_rejected [OF rej] show ?thesis by simp
qed

theorem send_after_destroy_rejects_witness:
  "getById demo_world ''a'' = Some 0
   \<and> getById (destroy 0 demo_world) (entity_id (heap (destroy 0 demo_world) ! 0)) = None
   \<and> promises (snd (sendMessage 0 ''b'' (JStr ''Hello'') (destroy 0 demo_world)))
        ! fst (sendMessage 0 ''b'' (JStr ''Hello'') (destroy 0 demo_world))
       = Rejected (Error ''Entity is destroyed'')
   \<and> promises (handleIncomingMessage 0 (demo_message ''response'' ''id-0'' ''b'' ''a'' (JStr ''Hi''))
                  (snd (sendMessage 0 ''b'' (JStr ''Hello'') (destroy 0 demo_world))))
        ! fst (sendMessage 0 ''b'' (JStr ''Hello'') (destroy 0 demo_world))
       = Rejected (Error ''Entity is destroyed'')"
proof -
  have a: "getById demo_world ''a'' = Some 0"
    by (simp add: getById_def demo_instances)
  note gone = destroy_unregisters [of 0 demo_world]
  from send_after_destroy_rejects
         [OF gone, of "''b''" "JStr ''Hello''" 0 "demo_message ''response'' ''id-0'' ''b'' ''a'' (JStr ''Hi'')"]
       a gone
  show ?thesis by blast
qed

lemma sendMessage_effect:
  assumes "this < length (heap w)"
  shows "fst (sendMessage this targetId message w) = length (promises w)"
    and "heap (snd (sendMessage this targetId message w))
           = (heap w)[this := (heap w ! this)
                \<lparr>pendingRequests := (pendingRequests (heap w ! this))
                                       (uuids w (uuid_next w) \<mapsto> length (promises w))\<rparr>]"
    and "instances (snd (sendMessage this targetId message w)) = instances w"
    and "getById w (entity_id (heap w ! this)) \<noteq> None \<Longrightarrow>
           promises (snd (sendMessage this targetId message w)) = promises w @ [Pending]"
proof -
  obtain wire where enc: "encodeNestedFormData message = Inr wire"
    using encode_ok(1) by blast
  show "fst (sendMessage this targetId message w) = length (promises w)"
    using enc by (simp add: sendMessage_def Let_def)
  show "heap (snd (sendMessage this targetId message w))
           = (heap w)[this := (heap w ! this)
                \<lparr>pendingRequests := (pendingRequests (heap w ! this))
                                       (uuids w (uuid_next w) \<mapsto> length (promises w))\<rparr>]"
    using enc
    by (auto simp: sendMessage_def Let_def settle_def update_entity_def post_def split: option.splits)
  show "instances (snd (sendMessage this targetId message w)) = instances w"
    using enc
    by (auto simp: sendMessage_def Let_def settle_def update_entity_def post_def split: option.splits)
  show "promises (snd (sendMessage this targetId message w)) = promises w @ [Pending]"
    if "getById w (entity_id (heap w ! this)) \<noteq> None"
    using enc that
    by (auto simp: sendMessage_def Let_def getById_def update_entity_def post_def split: option.splits)
qed

text \<open>
  Claim C2. A \<open>sendMessage\<close> on an entity that has been destroyed is to fail with
  "Entity is destroyed". The code does not meet this once an entity has been
  constructed again under the id of the destroyed one: the guard of \<open>sendMessage\<close> looks
  the id up, finds the other instance and does not reject. The promise of the
  destroyed instance is pending, its entry sits in the pending requests of the
  destroyed instance, and a response with the identifier of the request, which the
  registry routes by id to the other instance, finds no entry there and changes
  nothing.
\<close>

theorem stale_instance_send_is_not_rejected:
  assumes "this < length (heap w)" and "other < length (heap w)" and "other \<noteq> this"
    and "getById w (entity_id (heap w ! this)) = Some other"
    and "pendingRequests (heap w ! other) (uuids w (uuid_next w)) = None"
    and "msg_type data = ''response''" and "messageId data = uuids w (uuid_next w)"
  shows "promises (snd (sendMessage this targetId message w)) ! fst (sendMessage this targetId message w)
           = Pending
       \<and> pendingRequests (heap (snd (sendMessage this targetId message w)) ! this) (uuids w (uuid_next w))
           = Some (fst (sendMessage this targetId message w))
       \<and> getById (snd (sendMessage this targetId message w)) (entity_id (heap w ! this)) = Some other
       \<and> handleIncomingMessage other data (snd (sendMessage this targetId message w))
           = snd (sendMessage this targetId message w)"
proof -
  let ?w' = "snd (sendMessage this targetId message w)"
  note eff = sendMessage_effect [OF assms(1), of targetId message]
  have reg: "getById w (entity_id (heap w ! this)) \<noteq> None" using assms(4) by simp
  have 1: "promises ?w' ! fst (sendMessage this targetId message w) = Pending"
    by (simp add: eff(1) eff(4) [OF reg])
  have 2: "pendingRequests (heap ?w' ! this) (uuids w (uuid_next w))
             = Some (fst (sendMessage this targetId message w))"
    using assms(1) by (simp add: eff(1) eff(2))
  have 3: "getById ?w' (entity_id (heap w ! this)) = Some other"
    using assms(4) by (simp add: getById_def eff(3))
  have "heap ?w' ! other = heap w ! other"
    using assms(3) by (simp add: eff(2))
  then have "pendingRequests (heap ?w' ! other) (messageId data) = None"
    using assms(5,7) by simp
  with assms(6) have 4: "handleIncomingMessage other data ?w' = ?w'"
    by (simp add: handleIncomingMessage_def)
  from 1 2 3 4 show ?thesis by blast
qed

theorem stale_instance_send_is_not_rejected_witness:
  "getById (destroy 0 demo_world) ''a'' = None
   \<and> entity_id (heap demo_reused ! 0) = ''a''
   \<and> getById demo_reused ''a'' = Some 2
   \<and> promises (snd (sendMessage 0 ''b'' (JStr ''Hello'') demo_reused))
        ! fst (sendMessage 0 ''b'' (JStr ''Hello'') demo_reused) = Pending
   \<and> getById (snd (sendMessage 0 ''b'' (JStr ''Hello'') demo_reused)) ''a'' = Some 2
   \<and> handleIncomingMessage 2 (demo_message ''response'' ''id-0'' ''b'' ''a'' (JStr ''Hi''))
        (snd (sendMessage 0 ''b'' (JStr ''Hello'') demo_reused))
       = snd (sendMessage 0 ''b'' (JStr ''Hello'') demo_reused)"
proof -
  let ?d = "demo_message ''response'' ''id-0'' ''b'' ''a'' (JStr ''Hi'')"
  have h: "0 < length (heap demo_reused)" "2 < length (heap demo_reused)" "(2::nat) \<noteq> 0"
    "getById demo_reused (entity_id (heap demo_reused ! 0)) = Some 2"
    "pendingRequests (heap demo_reused ! 2) (uuids demo_reused (uuid_next demo_reused)) = None"
    "msg_type ?d = ''response''" "messageId ?d = uuids demo_reused (uuid_next demo_reused)"
    by (simp_all add: demo_reused_facts demo_heap getById_def demo_message_def demo_ids_0)
  have g: "getById (destroy 0 demo_world) ''a'' = None" "entity_id (heap demo_reused ! 0) = ''a''"
    "getById demo_reused ''a'' = Some 2"
    by (simp_all add: demo_reused_facts demo_heap getById_def demo_destroyed)
  from stale_instance_send_is_not_rejected [OF h, of "''b''" "JStr ''Hello''"] g
  show ?thesis by (simp add: demo_reused_facts demo_heap)
qed



section \<open>Incoming requests\<close>

lemma call_handlers_decoded:
  "decodeNestedFormData (payload data) = Inr v \<Longrightarrow>
     call_handlers hs this data w = w\<lparr>invoked := invoked w @ map (handler_call this data v) hs\<rparr>"
  by (induction hs arbitrary: w) simp_all

lemma call_handlers_failed:
  "decodeNestedFormData (payload data) = Inl err \<Longrightarrow>
     call_handlers hs this data w = w\<lparr>unhandled := unhandled w @ replicate (length hs) err\<rparr>"
proof (induction hs arbitrary: w)
  case Nil
  then show ?case by simp
next
  case (Cons h hs)
  have "unhandled w @ [err] @ replicate (length hs) err = unhandled w @ replicate (Suc (length hs)) err"
    by simp
  with Cons show ?case by simp
qed

text \<open>
  Where the code meets claim C7: for a request envelope that passes the self-message
  guard and whose payload decodes, the entity calls every handler of its list, in
  the order of the list, each with the sender, the decoded payload and a reply
  closure for this request; nothing else in the state changes. The list is in
  subscription order, since \<open>subscribeMessage\<close> appends.
\<close>

theorem request_reaches_all_handlers:
  assumes "msg_from data \<noteq> entity_id (heap w ! this)"
    and "msg_type data = ''request''"
    and "decodeNestedFormData (payload data) = Inr v"
  shows "handleIncomingMessage this data w
           = w\<lparr>invoked := invoked w @ map (handler_call this data v) (messageHandlers (heap w ! this))\<rparr>
         \<and> (this < length (heap w) \<longrightarrow>
              messageHandlers (heap (subscribeMessage this h w) ! this)
                = messageHandlers (heap w ! this) @ [h])"
  using assms
  by (simp add: handleIncomingMessage_def call_handlers_decoded subscribeMessage_def update_entity_def)

theorem request_reaches_all_handlers_witness:
  "msg_from (demo_message ''request'' ''m1'' ''b'' ''a'' (JStr ''Hello'')) \<noteq> entity_id (heap demo_world ! 0)
   \<and> decodeNestedFormData (payload (demo_message ''request'' ''m1'' ''b'' ''a'' (JStr ''Hello'')))
       = Inr (JStr ''Hello'')
   \<and> map inv_handler
        (invoked (handleIncomingMessage 0 (demo_message ''request'' ''m1'' ''b'' ''a'' (JStr ''Hello''))
                    demo_world)) = [10, 11]
   \<and> map inv_payload
        (invoked (handleIncomingMessage 0 (demo_message ''request'' ''m1'' ''b'' ''a'' (JStr ''Hello''))
                    demo_world)) = [JStr ''Hello'', JStr ''Hello'']
   \<and> messageHandlers (heap (subscribeMessage 0 12 demo_world) ! 0) = [10, 11, 12]"
proof -
  let ?d = "demo_message ''request'' ''m1'' ''b'' ''a'' (JStr ''Hello'')"
  have 1: "msg_from ?d \<noteq> entity_id (heap demo_world ! 0)"
    and 2: "msg_type ?d = ''request''"
    by (simp_all add: demo_message_def demo_heap)
  have 3: "decodeNestedFormData (payload ?d) = Inr (JStr ''Hello'')"
    by (simp add: demo_message_def decodeFile_def)
  from request_reaches_all_handlers [OF 1 2 3, of 12] 1 3 show ?thesis
    by (simp add: demo_heap demo_registry handler_call_def)
qed

text \<open>
  Claim C7. For every request envelope an entity accepts, every subscribed handler
  is to be called, in subscription order. The code does not meet this when decoding
  the payload throws: each callback of the \<open>forEach\<close> evaluates
  \<open>await decodeNestedFormData(payload)\<close> before it calls its handler, and
  \<open>decodeFormData\<close> lets the error of \<open>decodeFile\<close> through, which the string branch
  of \<open>decodeNestedFormData\<close> catches. Then no handler is called and all that happens
  is one unhandled rejection for each handler. A form container holding a file
  without bytes, encoded by this library, is such a payload.
\<close>

theorem undecodable_request_reaches_no_handler:
  assumes "msg_from data \<noteq> entity_id (heap w ! this)"
    and "msg_type data = ''request''"
    and "decodeNestedFormData (payload data) = Inl err"
  shows "handleIncomingMessage this data w
           = w\<lparr>unhandled := unhandled w @ replicate (length (messageHandlers (heap w ! this))) err\<rparr>"
  using assms by (simp add: handleIncomingMessage_def call_handlers_failed)

theorem undecodable_request_reaches_no_handler_witness:
  "encodeNestedFormData empty_file_form = Inr empty_file_payload
   \<and> decodeNestedFormData empty_file_payload = Inl (Error ''Invalid Base64 string format.'')
   \<and> getById demo_world ''a'' = Some 0
   \<and> messageHandlers (heap demo_world ! 0) = [10, 11]
   \<and> invoked (handleIncomingMessage 0 (demo_message ''request'' ''m1'' ''b'' ''a'' empty_file_payload)
                 demo_world) = []
   \<and> unhandled (handleIncomingMessage 0 (demo_message ''request'' ''m1'' ''b'' ''a'' empty_file_payload)
                   demo_world)
       = [Error ''Invalid Base64 string format.'', Error ''Invalid Base64 string format.'']"
proof -
  let ?d = "demo_message ''request'' ''m1'' ''b'' ''a'' empty_file_payload"
  have 1: "msg_from ?d \<noteq> entity_id (heap demo_world ! 0)"
    and 2: "msg_type ?d = ''request''"
    and 3: "decodeNestedFormData (payload ?d) = Inl (Error ''Invalid Base64 string format.'')"
    by (simp_all add: demo_message_def demo_heap empty_file_decode)
  have g: "getById demo_world ''a'' = Some 0"
    by (simp add: getById_def demo_instances)
  from undecodable_request_reaches_no_handler [OF 1 2 3] g empty_file_encoded empty_file_decode
  show ?thesis
    by (simp add: demo_heap demo_registry)
qed

section \<open>Incoming responses\<close>

lemma response_without_entry:
  "msg_type data = ''response'' \<Longrightarrow> pendingRequests (heap w ! this) (messageId data) = None \<Longrightarrow>
     handleIncomingMessage this data w = w"
  by (simp add: handleIncomingMessage_def)

text \<open>
  Where the code meets claim C3. Take a response envelope that passes the
  self-message guard. If the pending requests of the entity have no entry for its
  id, the envelope is dropped and the state is unchanged. If they have one and the
  payload decodes, the promise of that entry is resolved with the decoded payload (a
  pending promise becomes fulfilled with it) and the entry, and only this entry, is
  removed; any later response with the same id then leaves the state unchanged.
\<close>

theorem response_correlation:
  assumes "this < length (heap w)"
    and "msg_from data \<noteq> entity_id (heap w ! this)"
    and "msg_type data = ''response''"
  shows "(pendingRequests (heap w ! this) (messageId data) = None \<longrightarrow>
            handleIncomingMessage this data w = w)
       \<and> (\<forall>p v. pendingRequests (heap w ! this) (messageId data) = Some p
                  \<and> decodeNestedFormData (payload data) = Inr v \<longrightarrow>
             promises (handleIncomingMessage this data w) = promises (settle p (Fulfilled v) w)
           \<and> (p < length (promises w) \<and> promises w ! p = Pending \<longrightarrow>
                 promises (handleIncomingMessage this data w) ! p = Fulfilled v)
           \<and> pendingRequests (heap (handleIncomingMessage this data w) ! this)
                 = (pendingRequests (heap w ! this))(messageId data := None)
           \<and> (\<forall>later. msg_type later = ''response'' \<and> messageId later = messageId data \<longrightarrow>
                  handleIncomingMessage this later (handleIncomingMessage this data w)
                    = handleIncomingMessage this data w))"
proof (intro conjI impI allI)
  assume "pendingRequests (heap w ! this) (messageId data) = None"
  with assms show "handleIncomingMessage this data w = w"
    by (simp add: handleIncomingMessage_def)
next
  fix p v
  assume h: "pendingRequests (heap w ! this) (messageId data) = Some p
                  \<and> decodeNestedFormData (payload data) = Inr v"
  let ?w' = "handleIncomingMessage this data w"
  have w': "?w' = update_entity this
                    (\<lambda>e. e\<lparr>pendingRequests := (pendingRequests e)(messageId data := None)\<rparr>)
                    (settle p (Fulfilled v) w)"
    using assms h by (simp add: handleIncomingMessage_def)
  have heap_settle: "heap (settle p (Fulfilled v) w) = heap w"
    by (simp add: settle_def)
  show "promises ?w' = promises (settle p (Fulfilled v) w)"
    by (simp add: w' update_entity_def)
  show "pendingRequests (heap ?w' ! this) = (pendingRequests (heap w ! this))(messageId data := None)"
    using assms(1) by (simp add: w' update_entity_def heap_settle)
  {
    assume "p < length (promises w) \<and> promises w ! p = Pending"
    then show "promises ?w' ! p = Fulfilled v"
      by (simp add: w' update_entity_def settle_def)
  }
  {
    fix later :: MessageData
    assume l: "msg_type later = ''response'' \<and> messageId later = messageId data"
    have "pendingRequests (heap ?w' ! this) (messageId later) = None"
      using assms(1) l by (simp add: w' update_entity_def heap_settle)
    with l show "handleIncomingMessage this later ?w' = ?w'"
      by (intro response_without_entry) simp_all
  }
qed

theorem response_correlation_witness:
  "0 < length (heap demo_sent)
   \<and> msg_from (demo_message ''response'' ''id-0'' ''b'' ''a'' (JStr ''Hi'')) \<noteq> entity_id (heap demo_sent ! 0)
   \<and> pendingRequests (heap demo_sent ! 0) ''id-0'' = Some 0
   \<and> promises demo_sent = [Pending]
   \<and> decodeNestedFormData (JStr ''Hi'') = Inr (JStr ''Hi'')
   \<and> promises (handleIncomingMessage 0 (demo_message ''response'' ''id-0'' ''b'' ''a'' (JStr ''Hi'')) demo_sent) ! 0
       = Fulfilled (JStr ''Hi'')
   \<and> pendingRequests
        (heap (handleIncomingMessage 0 (demo_message ''response'' ''id-0'' ''b'' ''a'' (JStr ''Hi'')) demo_sent) ! 0)
        ''id-0'' = None
   \<and> handleIncomingMessage 0 (demo_message ''response'' ''id-0'' ''b'' ''a'' (JStr ''Again''))
        (handleIncomingMessage 0 (demo_message ''response'' ''id-0'' ''b'' ''a'' (JStr ''Hi'')) demo_sent)
       = handleIncomingMessage 0 (demo_message ''response'' ''id-0'' ''b'' ''a'' (JStr ''Hi'')) demo_sent
   \<and> handleIncomingMessage 0 (demo_message ''response'' ''stale'' ''b'' ''a'' (JStr ''Hi'')) demo_sent
       = demo_sent"
proof -
  let ?d = "demo_message ''response'' ''id-0'' ''b'' ''a'' (JStr ''Hi'')"
  let ?again = "demo_message ''response'' ''id-0'' ''b'' ''a'' (JStr ''Again'')"
  let ?stale = "demo_message ''response'' ''stale'' ''b'' ''a'' (JStr ''Hi'')"
  have 1: "0 < length (heap demo_sent)"
    and 2: "msg_from ?d \<noteq> entity_id (heap demo_sent ! 0)"
    and 3: "msg_type ?d = ''response''"
    and s2: "msg_from ?stale \<noteq> entity_id (heap demo_sent ! 0)"
    and s3: "msg_type ?stale = ''response''"
    by (simp_all add: demo_message_def demo_sent_facts)
  have entry: "pendingRequests (heap demo_sent ! 0) (messageId ?d) = Some 0"
    and dec: "decodeNestedFormData (payload ?d) = Inr (JStr ''Hi'')"
    and pend: "promises demo_sent = [Pending]"
    by (simp_all add: demo_message_def demo_sent_facts decodeFile_def)
  have none: "pendingRequests (heap demo_sent ! 0) (messageId ?stale) = None"
    by (simp add: demo_message_def demo_sent_def sendMessage_def Let_def getById_def demo_heap
          demo_instances demo_registry update_entity_def post_def demo_ids_0)
  have later: "msg_type ?again = ''response'' \<and> messageId ?again = messageId ?d"
    by (simp add: demo_message_def)
  from response_correlation [OF 1 2 3] entry dec pend later
  have a: "promises (handleIncomingMessage 0 ?d demo_sent) ! 0 = Fulfilled (JStr ''Hi'')"
    and b: "pendingRequests (heap (handleIncomingMessage 0 ?d demo_sent) ! 0) = (pendingRequests (heap demo_sent ! 0))(messageId ?d := None)"
    and c: "handleIncomingMessage 0 ?again (handleIncomingMessage 0 ?d demo_sent)
              = handleIncomingMessage 0 ?d demo_sent"
    by (simp_all add: settle_def)
  from response_correlation [OF 1 s2 s3] none
  have d: "handleIncomingMessage 0 ?stale demo_sent = demo_sent"
    by simp
  have b': "pendingRequests (heap (handleIncomingMessage 0 ?d demo_sent) ! 0) ''id-0'' = None"
    using b by (simp add: demo_message_def)
  have dec': "decodeNestedFormData (JStr ''Hi'') = Inr (JStr ''Hi'')"
    using dec by (simp add: demo_message_def)
  have entry': "pendingRequests (heap demo_sent ! 0) ''id-0'' = Some 0"
    using entry by (simp add: demo_message_def)
  from 1 2 entry' pend dec' a b' c d show ?thesis
    by blast
qed

text \<open>
  Claim C3. For every response envelope whose id has an entry in the pending
  requests of the receiving entity, the entry is to be resolved with the decoded
  payload and removed. The code does not meet this when decoding the payload
  throws: the resolver is called with \<open>await decodeNestedFormData(payload)\<close>, and
  \<open>decodeFormData\<close> lets the error of \<open>decodeFile\<close> through, which the string branch
  of \<open>decodeNestedFormData\<close> catches. Then the promise is not resolved, the entry is
  not removed, and all that happens is an unhandled rejection. A form container
  holding a file without bytes, encoded by this library, is such a payload.
\<close>

theorem undecodable_response_is_lost:
  assumes "msg_from data \<noteq> entity_id (heap w ! this)"
    and "msg_type data = ''response''"
    and "pendingRequests (heap w ! this) (messageId data) = Some p"
    and "decodeNestedFormData (payload data) = Inl err"
  shows "handleIncomingMessage this data w = w\<lparr>unhandled := unhandled w @ [err]\<rparr>"
  using assms by (simp add: handleIncomingMessage_def)

theorem undecodable_response_is_lost_witness:
  "encodeNestedFormData empty_file_form = Inr empty_file_payload
   \<and> decodeNestedFormData empty_file_payload = Inl (Error ''Invalid Base64 string format.'')
   \<and> pendingRequests (heap demo_sent ! 0) ''id-0'' = Some 0
   \<and> promises demo_sent = [Pending]
   \<and> pendingRequests
        (heap (handleIncomingMessage 0 (demo_message ''response'' ''id-0'' ''b'' ''a'' empty_file_payload)
                 demo_sent) ! 0) ''id-0'' = Some 0
   \<and> promises (handleIncomingMessage 0 (demo_message ''response'' ''id-0'' ''b'' ''a'' empty_file_payload)
                  demo_sent) = [Pending]"
proof -
  let ?d = "demo_message ''response'' ''id-0'' ''b'' ''a'' empty_file_payload"
  have 1: "msg_from ?d \<noteq> entity_id (heap demo_sent ! 0)"
    and 2: "msg_type ?d = ''response''"
    and 3: "pendingRequests (heap demo_sent ! 0) (messageId ?d) = Some 0"
    and 4: "decodeNestedFormData (payload ?d) = Inl (Error ''Invalid Base64 string format.'')"
    by (simp_all add: demo_message_def demo_sent_facts empty_file_decode)
  from undecodable_response_is_lost [OF 1 2 3 4] empty_file_encoded empty_file_decode
  show ?thesis
    by (simp add: demo_sent_facts)
qed

section \<open>Base64 read back\<close>

lemma b64_index_char: "n < 64 \<Longrightarrow> b64_index (b64_char n) = Some n"
  by (auto simp: b64_index_def b64_char_def Let_def)

lemma sextets_bound: "\<forall>s \<in> set (sextets bs). s < 64"
proof (induction bs rule: sextets.induct)
  case (1 a b c rest)
  have "of_char a < (256::nat)" "of_char b < (256::nat)" "of_char c < (256::nat)" by simp_all
  then have "of_char a div 4 < (64::nat)" "of_char a mod 4 * 16 + of_char b div 16 < (64::nat)"
    "of_char b mod 16 * 4 + of_char c div 64 < (64::nat)" "of_char c mod 64 < (64::nat)"
    by arith+
  with 1 show ?case by (simp add: Let_def)
next
  case (2 a b)
  have "of_char a < (256::nat)" "of_char b < (256::nat)" by simp_all
  then have "of_char a div 4 < (64::nat)" "of_char a mod 4 * 16 + of_char b div 16 < (64::nat)"
    "of_char b mod 16 * 4 < (64::nat)"
    by arith+
  then show ?case by (simp add: Let_def)
next
  case (3 a)
  have "of_char a < (256::nat)" by simp
  then have "of_char a div 4 < (64::nat)" "of_char a mod 4 * 16 < (64::nat)"
    by arith+
  then show ?case by (simp add: Let_def)
qed simp

lemma byte_halves:
  fixes y :: nat
  assumes "y < 256"
  shows "y div 16 div 16 = 0" and "y div 64 div 4 = 0"
    and "y div 16 mod 16 = y div 16" and "y div 64 mod 4 = y div 64"
proof -
  have a: "y div 16 < 16" and b: "y div 64 < 4"
    using assms by (simp_all add: less_mult_imp_div_less)
  from a b show "y div 16 div 16 = 0" "y div 64 div 4 = 0"
    "y div 16 mod 16 = y div 16" "y div 64 mod 4 = y div 64"
    by simp_all
qed

lemma decode_sextets_inverse: "decode_sextets (sextets bs) = bs"
proof (induction bs rule: sextets.induct)
  case (1 a b c rest)
  have b: "of_char a < (256::nat)" "of_char b < (256::nat)" "of_char c < (256::nat)" by simp_all
  show ?case using 1 by (simp add: Let_def byte_halves [OF b(2)] byte_halves [OF b(3)])
next
  case (2 a b)
  have b: "of_char a < (256::nat)" "of_char b < (256::nat)" by simp_all
  show ?case by (simp add: Let_def byte_halves [OF b(2)])
next
  case (3 a)
  show ?case by (simp add: Let_def)
qed simp

lemma those_index_char: "\<forall>s \<in> set ss. s < 64 \<Longrightarrow> those (map b64_index (map b64_char ss)) = Some ss"
  by (induction ss) (simp_all add: b64_index_char)

lemma b64_char_plain:
  assumes "n < 64"
  shows "b64_char n \<noteq> CHR ''=''" and "\<not> ascii_whitespace (b64_char n)"
    and "b64_char n \<noteq> CHR '',''"
proof -
  have i: "b64_index (b64_char n) = Some n" by (rule b64_index_char [OF assms])
  have "b64_index (CHR ''='') = None" "b64_index (CHR '','') = None"
    by (simp_all add: b64_index_def)
  with i show "b64_char n \<noteq> CHR ''=''" "b64_char n \<noteq> CHR '',''" by auto
  have "\<And>c. ascii_whitespace c \<Longrightarrow> b64_index c = None"
    by (auto simp: ascii_whitespace_def b64_index_def)
  with i show "\<not> ascii_whitespace (b64_char n)" by fastforce
qed

lemma mod_three_more: "Suc (Suc (Suc n)) mod 3 = n mod 3" "Suc (Suc (Suc (Suc n))) mod 4 = n mod 4"
proof -
  have "Suc (Suc (Suc n)) = n + 3" "Suc (Suc (Suc (Suc n))) = n + 4" by simp_all
  then show "Suc (Suc (Suc n)) mod 3 = n mod 3" "Suc (Suc (Suc (Suc n))) mod 4 = n mod 4"
    by (simp_all only: mod_add_self2)
qed

lemma sextets_length:
  "(length (sextets bs) + (3 - length bs mod 3) mod 3) mod 4 = 0 \<and> length (sextets bs) mod 4 \<noteq> 1"
proof (induction bs rule: sextets.induct)
  case (1 a b c rest)
  then show ?case by (simp add: Let_def mod_three_more)
qed (simp_all add: Let_def)

lemma strip_padding_core:
  assumes len: "length (core @ replicate k (CHR ''='')) mod 4 = 0"
    and k: "k \<le> 2"
    and core: "CHR ''='' \<notin> set core"
  shows "strip_padding (core @ replicate k (CHR ''='')) = core"
proof -
  have nodrop: "\<And>n r. drop n core \<noteq> CHR ''='' # r"
  proof
    fix n r assume "drop n core = CHR ''='' # r"
    then have "CHR ''='' \<in> set (drop n core)" by simp
    then have "CHR ''='' \<in> set core" by (rule in_set_dropD)
    with core show False by simp
  qed
  consider "k = 0" | "k = 1" | "k = 2" using k by linarith
  then show ?thesis
  proof cases
    case 1
    then show ?thesis by (simp add: strip_padding_def nodrop)
  next
    case 2
    have ne: "core \<noteq> []" using len 2 by auto
    have d2: "drop (length core - Suc 0) core = [last core]"
      using ne by (metis One_nat_def append_butlast_last_id append_eq_conv_conj length_butlast)
    have "last core \<noteq> CHR ''=''" using ne core last_in_set by metis
    moreover have "Suc (length core) mod 4 = 0" using len 2 by simp
    ultimately show ?thesis
      using 2 ne by (simp add: strip_padding_def d2)
  next
    case 3
    have "Suc (Suc (length core)) mod 4 = 0" using len 3 by (simp add: numeral_2_eq_2)
    with 3 show ?thesis
      by (simp add: strip_padding_def numeral_2_eq_2)
  qed
qed

lemma atob_b64_encode: "atob (b64_encode bs) = Some bs"
proof -
  let ?core = "map b64_char (sextets bs)"
  let ?k = "(3 - length bs mod 3) mod 3"
  have plain: "\<forall>c \<in> set ?core. c \<noteq> CHR ''='' \<and> \<not> ascii_whitespace c"
    using sextets_bound [of bs] by (auto simp: b64_char_plain)
  have eqws: "\<not> ascii_whitespace (CHR ''='')"
    by (simp add: ascii_whitespace_def)
  have filt: "filter (\<lambda>c. \<not> ascii_whitespace c) (b64_encode bs) = b64_encode bs"
    unfolding b64_encode_def using plain eqws by (auto simp: filter_id_conv)
  have len: "length (?core @ replicate ?k (CHR ''='')) mod 4 = 0"
    using sextets_length [of bs] by simp
  have k: "?k \<le> 2" by simp
  have core: "CHR ''='' \<notin> set ?core" using plain by blast
  have strip: "strip_padding (b64_encode bs) = ?core"
    unfolding b64_encode_def by (rule strip_padding_core [OF len k core])
  have l1: "length ?core mod 4 \<noteq> 1"
    using sextets_length [of bs] by simp
  show ?thesis
    using l1 those_index_char [OF sextets_bound, of bs]
    by (simp add: atob_def filt strip decode_sextets_inverse del: map_map)
qed

section \<open>A data URL read back\<close>

lemma split_comma_plain: "CHR '','' \<notin> set d \<Longrightarrow> split_comma d = [d]"
  by (induction d) auto

lemma split_comma_at: "CHR '','' \<notin> set p \<Longrightarrow> split_comma (p @ CHR '','' # rest) = p # split_comma rest"
  by (induction p) auto

lemma lazy_to_semicolon_run:
  "\<forall>c \<in> set t. c \<noteq> CHR '';'' \<and> \<not> line_terminator c \<Longrightarrow>
     lazy_to_semicolon (t @ CHR '';'' # r) = Some t"
  by (induction t) auto

lemma match_mime_data:
  "\<forall>c \<in> set t. c \<noteq> CHR '';'' \<and> \<not> line_terminator c \<Longrightarrow>
     match_mime (''data:'' @ t @ '';base64'') = Some t"
  using lazy_to_semicolon_run [of t "''base64''"] by simp

lemma printable_not_terminator: "printable c \<Longrightarrow> \<not> line_terminator c"
  by (auto simp: printable_def line_terminator_def)

lemma clean_type_facts:
  assumes "clean_type t"
  shows "t \<noteq> []" and "CHR '','' \<notin> set t"
    and "\<forall>c \<in> set t. c \<noteq> CHR '';'' \<and> \<not> line_terminator c"
    and "normalise_type t = t"
proof -
  from assms have all: "\<forall>c \<in> set t. printable c \<and> to_lower c = c \<and> c \<noteq> CHR '','' \<and> c \<noteq> CHR '';''"
    and ne: "t \<noteq> []"
    by (simp_all add: clean_type_def list_all_iff)
  show "t \<noteq> []" by (rule ne)
  from all show "CHR '','' \<notin> set t" by blast
  from all show "\<forall>c \<in> set t. c \<noteq> CHR '';'' \<and> \<not> line_terminator c"
    by (blast dest: printable_not_terminator)
  from all have "list_all printable t" and "map to_lower t = t"
    by (simp_all add: list_all_iff map_idI)
  then show "normalise_type t = t" by (simp add: normalise_type_def)
qed

lemma b64_encode_no_comma: "CHR '','' \<notin> set (b64_encode bs)"
proof
  assume "CHR '','' \<in> set (b64_encode bs)"
  then obtain n where "n \<in> set (sextets bs)" and "b64_char n = CHR '',''"
    by (auto simp: b64_encode_def)
  with sextets_bound [of bs] b64_char_plain(3) [of n] show False by blast
qed

lemma b64_encode_nonempty: "bs \<noteq> [] \<Longrightarrow> b64_encode bs \<noteq> []"
  by (cases bs rule: sextets.cases) (simp_all add: b64_encode_def Let_def)

lemma decodeFile_readAsDataURL:
  assumes "sound_file f"
  shows "decodeFile (readAsDataURL f) n = Inr (File n (file_type f) (file_bytes f))"
proof -
  let ?t = "file_type f"
  from assms have ct: "clean_type ?t" and ne: "file_bytes f \<noteq> []"
    by (simp_all add: sound_file_def)
  note tf = clean_type_facts [OF ct]
  have url: "readAsDataURL f = (''data:'' @ ?t @ '';base64'') @ CHR '','' # b64_encode (file_bytes f)"
    using tf(1) by (simp add: readAsDataURL_def)
  have nc: "CHR '','' \<notin> set (''data:'' @ ?t @ '';base64'')"
    using tf(2) by simp
  have sp: "split_comma (readAsDataURL f) = [''data:'' @ ?t @ '';base64'', b64_encode (file_bytes f)]"
    unfolding url by (simp only: split_comma_at [OF nc] split_comma_plain [OF b64_encode_no_comma])
  show ?thesis
    unfolding decodeFile_def sp
    using b64_encode_nonempty [OF ne]
    by (simp add: lazy_to_semicolon_run [OF tf(3), of "''base64''"] atob_b64_encode new_File_def tf(4))
qed

section \<open>The strings taken for encoded files\<close>

lemma split_comma_first:
  "split_comma s =
     first_part s # (if CHR '','' \<in> set s
                     then split_comma (tl (dropWhile (\<lambda>c. c \<noteq> CHR '','') s)) else [])"
  by (induction s) (auto simp: first_part_def)

lemma split_comma_parts:
  assumes "CHR '','' \<in> set s"
  shows "\<exists>more. split_comma s = first_part s # second_part s # more"
proof -
  let ?rest = "tl (dropWhile (\<lambda>c. c \<noteq> CHR '','') s)"
  have 1: "split_comma s = first_part s # split_comma ?rest"
    using split_comma_first [of s] assms by simp
  have 2: "\<exists>more. split_comma ?rest = first_part ?rest # more"
    using split_comma_first [of ?rest] by simp
  have 3: "first_part ?rest = second_part s"
    by (simp add: first_part_def second_part_def)
  from 1 2 3 show ?thesis by auto
qed

lemma decodeFile_accepts:
  "(\<exists>f. decodeFile s n = Inr f) \<longleftrightarrow> blob_shaped s"
proof (cases "CHR '','' \<in> set s")
  case True
  from split_comma_parts [OF True] obtain more
    where "split_comma s = first_part s # second_part s # more" by blast
  with True show ?thesis
    by (auto simp: decodeFile_def blob_shaped_def split: option.splits)
next
  case False
  then have "split_comma s = [s]" by (rule split_comma_plain)
  with False show ?thesis
    by (simp add: decodeFile_def blob_shaped_def)
qed

lemma decodeFile_name: "decodeFile s n = Inr f \<Longrightarrow> file_name f = n"
  by (auto simp: decodeFile_def new_File_def split: list.splits option.splits if_splits)

lemma decode_string:
  "\<not> blob_shaped s \<Longrightarrow> decodeNestedFormData (JStr s) = Inr (JStr s)"
  "blob_shaped s \<Longrightarrow> \<exists>f. decodeNestedFormData (JStr s) = Inr (JFile f) \<and> file_name f = ''unknown-filename''"
proof -
  assume "\<not> blob_shaped s"
  then have "\<nexists>f. decodeFile s ''unknown-filename'' = Inr f"
    by (simp add: decodeFile_accepts)
  then show "decodeNestedFormData (JStr s) = Inr (JStr s)"
    by (cases "decodeFile s ''unknown-filename''") simp_all
next
  assume "blob_shaped s"
  then obtain f where f: "decodeFile s ''unknown-filename'' = Inr f"
    using decodeFile_accepts [of s "''unknown-filename''"] by blast
  with decodeFile_name [OF f]
  show "\<exists>f. decodeNestedFormData (JStr s) = Inr (JFile f) \<and> file_name f = ''unknown-filename''"
    by simp
qed

section \<open>The encoder on supported payloads\<close>


lemma own_put_fresh: "k \<notin> fst ` set acc \<Longrightarrow> own_put acc k v = acc @ [(k, v)]"
  by (induction acc) auto

lemma js_set_fresh:
  "k \<noteq> ''__proto__'' \<Longrightarrow> k \<notin> fst ` set acc \<Longrightarrow> js_set acc k v = acc @ [(k, v)]"
  by (simp add: js_set_def own_put_fresh)

lemma store_texts_append:
  "distinct (map fst es) \<Longrightarrow> ''__proto__'' \<notin> fst ` set es \<Longrightarrow>
   fst ` set es \<inter> fst ` set acc = {} \<Longrightarrow>
     store_texts es acc = acc @ map encoded_entry (filter is_text_entry es)"
proof (induction es acc rule: store_texts.induct)
  case (1 items)
  then show ?case by simp
next
  case (2 key v rest items)
  have fresh: "key \<notin> fst ` set items" using 2(4) by auto
  have np: "key \<noteq> ''__proto__''" using 2(3) by auto
  have d: "distinct (map fst rest)" using 2(2) by simp
  have p: "''__proto__'' \<notin> fst ` set rest" using 2(3) by auto
  have "fst ` set rest \<inter> fst ` set (js_set items key (text_item v)) = {}"
    using 2(2,4) by (auto simp: js_set_fresh [OF np fresh])
  from 2(1) [OF d p this] show ?case
    by (simp add: js_set_fresh [OF np fresh] is_text_entry_def encoded_entry_def)
next
  case (3 key f rest items)
  then show ?case by (auto simp: is_text_entry_def)
qed

lemma store_files_append:
  "distinct (map fst es) \<Longrightarrow> ''__proto__'' \<notin> fst ` set es \<Longrightarrow>
   fst ` set (filter (\<lambda>kv. \<not> is_text_entry kv) es) \<inter> fst ` set acc = {} \<Longrightarrow>
     store_files es acc = Inr (acc @ map encoded_entry (filter (\<lambda>kv. \<not> is_text_entry kv) es))"
proof (induction es acc rule: store_files.induct)
  case (1 items)
  then show ?case by simp
next
  case (2 key v rest items)
  then show ?case by (auto simp: is_text_entry_def)
next
  case (3 key f rest items)
  have fresh: "key \<notin> fst ` set items" using 3(4) by (auto simp: is_text_entry_def)
  have np: "key \<noteq> ''__proto__''" using 3(3) by auto
  have d: "distinct (map fst rest)" using 3(2) by simp
  have p: "''__proto__'' \<notin> fst ` set rest" using 3(3) by auto
  have "fst ` set (filter (\<lambda>kv. \<not> is_text_entry kv) rest)
          \<inter> fst ` set (js_set items key (file_item f (readAsDataURL f))) = {}"
    using 3(2,4) by (auto simp: js_set_fresh [OF np fresh] is_text_entry_def)
  from 3(1) [OF encodeFile_ok d p this] show ?case
    by (simp add: encodeFile_ok js_set_fresh [OF np fresh] is_text_entry_def encoded_entry_def)
qed

lemma encoded_entry_key: "fst (encoded_entry kv) = fst kv"
  by (simp add: encoded_entry_def)

lemma encodeFormData_encoded:
  assumes "distinct (map fst es)" and np: "''__proto__'' \<notin> fst ` set es"
  shows "encodeFormData es = Inr (encoded (JFormData es))"
proof -
  have t: "store_texts es [] = map encoded_entry (filter is_text_entry es)"
    using store_texts_append [OF assms(1) np, of "[]"] by simp
  have fr: "fst ` set (filter (\<lambda>kv. \<not> is_text_entry kv) es)
              \<inter> fst ` set (map encoded_entry (filter is_text_entry es)) = {}"
  proof (rule equals0I)
    fix k
    assume "k \<in> fst ` set (filter (\<lambda>kv. \<not> is_text_entry kv) es)
              \<inter> fst ` set (map encoded_entry (filter is_text_entry es))"
    then have "k \<in> fst ` set (filter (\<lambda>kv. \<not> is_text_entry kv) es)"
      and "k \<in> fst ` set (filter is_text_entry es)"
      by (auto simp: encoded_entry_key image_iff)
    then obtain kv kv' where kv: "kv \<in> set es" "\<not> is_text_entry kv" "fst kv = k"
      and kv': "kv' \<in> set es" "is_text_entry kv'" "fst kv' = k"
      by auto
    with assms(1) have "kv' = kv" by (metis distinct_map inj_onD)
    with kv kv' show False by simp
  qed
  show ?thesis
    by (simp add: encodeFormData_def t store_files_append [OF assms(1) np fr])
qed

lemma encode_all_encoded:
  "\<forall>x \<in> set xs. encodeNestedFormData x = Inr (encoded x) \<Longrightarrow> encode_all xs = Inr (map encoded xs)"
  by (induction xs) simp_all

lemma encode_entries_encoded:
  "\<forall>kv \<in> set kvs. encodeNestedFormData (snd kv) = Inr (encoded (snd kv)) \<Longrightarrow>
   distinct (map fst kvs) \<Longrightarrow> ''__proto__'' \<notin> fst ` set kvs \<Longrightarrow>
   fst ` set kvs \<inter> fst ` set acc = {} \<Longrightarrow>
     encode_entries kvs acc = Inr (acc @ map (\<lambda>kv. (fst kv, encoded (snd kv))) kvs)"
proof (induction kvs arbitrary: acc)
  case Nil
  then show ?case by simp
next
  case (Cons kv kvs)
  have fresh: "fst kv \<notin> fst ` set acc" using Cons.prems(4) by auto
  have np: "fst kv \<noteq> ''__proto__''" using Cons.prems(3) by auto
  have "fst ` set kvs \<inter> fst ` set (acc @ [(fst kv, encoded (snd kv))]) = {}"
    using Cons.prems(2,4) by auto
  with Cons show ?case
    by (simp add: js_set_fresh [OF np fresh])
qed

lemma encode_supported: "supported v \<Longrightarrow> encodeNestedFormData v = Inr (encoded v)"
proof (induction v rule: supported.induct)
  case (6 xs)
  then have "\<forall>x \<in> set xs. encodeNestedFormData x = Inr (encoded x)"
    by (simp add: list_all_iff)
  then show ?case by (simp add: encode_all_encoded)
next
  case (7 kvs)
  then have "\<forall>kv \<in> set kvs. encodeNestedFormData (snd kv) = Inr (encoded (snd kv))"
    by (simp add: list_all_iff)
  moreover have "distinct (map fst kvs)" "''__proto__'' \<notin> fst ` set kvs" using 7 by simp_all
  ultimately show ?case
    using encode_entries_encoded [of kvs "[]"] by simp
next
  case (8 f)
  then show ?case by (simp add: encodeFile_ok)
next
  case (9 es)
  then show ?case by (simp add: encodeFormData_encoded)
qed simp_all

section \<open>Decoding what was encoded\<close>

lemma decode_items_encoded:
  "list_all sound_entry es \<Longrightarrow> decode_items (map encoded_entry es) acc = Inr (acc @ es)"
proof (induction es arbitrary: acc)
  case Nil
  then show ?case by simp
next
  case (Cons kv es)
  obtain k v where kv: "kv = (k, v)" by (cases kv)
  show ?case
  proof (cases v)
    case (FText s)
    with Cons kv show ?thesis
      by (simp add: encoded_entry_def text_item_def prop_or_undefined_def)
  next
    case (FFile f)
    with Cons.prems kv have sf: "sound_file f" by simp
    have "File (file_name f) (file_type f) (file_bytes f) = f" by simp
    with Cons kv FFile show ?thesis
      by (simp add: encoded_entry_def file_item_def prop_or_undefined_def
            decodeFile_readAsDataURL [OF sf])
  qed
qed

lemma encoded_entry_is_item: "isEncodedFormDataItem (snd (encoded_entry kv))"
  by (cases "snd kv") (simp_all add: encoded_entry_def isEncodedFormDataItem_def text_item_def file_item_def)

lemma encoded_form_shape: "isEncodedFormData (encoded (JFormData es))"
  by (auto simp: isEncodedFormData_def object_values_def list_all_iff encoded_entry_is_item)

lemma decode_encoded_form:
  assumes "list_all sound_entry es"
  shows "decodeNestedFormData (encoded (JFormData es))
           = Inr (JFormData (filter is_text_entry es @ filter (\<lambda>kv. \<not> is_text_entry kv) es))"
proof -
  let ?es = "filter is_text_entry es @ filter (\<lambda>kv. \<not> is_text_entry kv) es"
  have s: "list_all sound_entry ?es" using assms by (auto simp: list_all_iff)
  have "decodeNestedFormData (encoded (JFormData es)) = decodeFormData (encoded (JFormData es))"
    using encoded_form_shape [of es] by simp
  also have "\<dots> = Inr (JFormData ?es)"
    using decode_items_encoded [OF s, of "[]"] by (simp add: decodeFormData_def)
  finally show ?thesis .
qed

lemma partition_same:
  assumes "distinct (map fst es)"
  shows "distinct (map fst (filter P es @ filter (\<lambda>kv. \<not> P kv) es))"
    and "set (filter P es @ filter (\<lambda>kv. \<not> P kv) es) = set es"
proof -
  show "set (filter P es @ filter (\<lambda>kv. \<not> P kv) es) = set es" by auto
  have "fst ` set (filter P es) \<inter> fst ` set (filter (\<lambda>kv. \<not> P kv) es) = {}"
  proof (rule equals0I)
    fix k assume "k \<in> fst ` set (filter P es) \<inter> fst ` set (filter (\<lambda>kv. \<not> P kv) es)"
    then obtain kv kv' where kv: "kv \<in> set es" "P kv" "fst kv = k"
      and kv': "kv' \<in> set es" "\<not> P kv'" "fst kv' = k"
      by auto
    with assms have "kv' = kv" by (metis distinct_map inj_onD)
    with kv kv' show False by simp
  qed
  with assms show "distinct (map fst (filter P es @ filter (\<lambda>kv. \<not> P kv) es))"
    by (simp add: distinct_map_filter)
qed

lemma encoded_string:
  assumes "encoded x = JStr s" and "take 5 s \<noteq> ''data:''"
  shows "x = JStr s"
  using assms by (cases x) (auto simp: readAsDataURL_def)

lemma map_of_encoded:
  "map_of (map (\<lambda>kv. (fst kv, encoded (snd kv))) kvs) k = map_option encoded (map_of kvs k)"
  by (induction kvs) auto

lemma encoded_item:
  assumes "isEncodedFormDataItem (encoded x)"
  shows "isEncodedFormDataItem x"
proof (cases x)
  case (JObj kvs)
  from assms obtain t where t: "map_of kvs ''dataType'' = Some t"
    and e: "encoded t = JStr ''file'' \<or> encoded t = JStr ''text''"
    unfolding JObj by (auto simp: isEncodedFormDataItem_def map_of_encoded split: option.splits)
  from e have "t = JStr ''file'' \<or> t = JStr ''text''"
    by (auto dest: encoded_string)
  with t show ?thesis by (simp add: JObj isEncodedFormDataItem_def)
qed (use assms in \<open>simp_all add: isEncodedFormDataItem_def\<close>)

lemma index_entries_values: "map snd (index_entries i xs) = xs"
  by (induction xs arbitrary: i) simp_all

lemma encoded_values:
  assumes "typeof (encoded it) = ''object''" and "encoded it \<noteq> JNull"
    and "list_all isEncodedFormDataItem (object_values (encoded it))"
  shows "typeof it = ''object'' \<and> it \<noteq> JNull \<and> list_all isEncodedFormDataItem (object_values it)"
proof (cases it)
  case (JArr xs)
  with assms(3) show ?thesis
    by (auto simp: object_values_def index_entries_values list_all_iff intro: encoded_item)
next
  case (JObj kvs)
  with assms(3) show ?thesis
    by (auto simp: object_values_def list_all_iff intro: encoded_item)
next
  case (JFormData es)
  with assms(3) show ?thesis
    by (simp add: object_values_def isEncodedFormDataItem_def)
qed (use assms in simp_all)

lemma encoded_object_shape:
  assumes "isEncodedFormData (encoded (JObj kvs))"
  shows "isEncodedFormData (JObj kvs)"
proof -
  from assms obtain t it where t: "map_of kvs ''dataType'' = Some t" "encoded t = JStr ''formData''"
    and it: "map_of kvs ''items'' = Some it"
    and sh: "typeof (encoded it) = ''object''" "encoded it \<noteq> JNull"
            "list_all isEncodedFormDataItem (object_values (encoded it))"
    by (auto simp: isEncodedFormData_def map_of_encoded split: option.splits)
  from t(2) have "t = JStr ''formData''" by (auto dest: encoded_string)
  with t it encoded_values [OF sh] show ?thesis
    by (simp add: isEncodedFormData_def)
qed

lemma decode_all_encoded:
  "\<forall>x \<in> set xs. \<exists>dec. decodeNestedFormData (encoded x) = Inr dec \<and> same_payload x dec \<Longrightarrow>
     \<exists>decs. decode_all (map encoded xs) = Inr decs \<and> same_list xs decs"
proof (induction xs)
  case Nil
  then show ?case by simp
next
  case (Cons x xs)
  then obtain dec decs where "decodeNestedFormData (encoded x) = Inr dec" "same_payload x dec"
    "decode_all (map encoded xs) = Inr decs" "same_list xs decs"
    by auto
  then show ?case by simp
qed

lemma decode_entries_encoded:
  "\<forall>kv \<in> set kvs. \<exists>dec. decodeNestedFormData (encoded (snd kv)) = Inr dec \<and> same_payload (snd kv) dec \<Longrightarrow>
   distinct (map fst kvs) \<Longrightarrow> ''__proto__'' \<notin> fst ` set kvs \<Longrightarrow>
   fst ` set kvs \<inter> fst ` set acc = {} \<Longrightarrow>
     \<exists>decs. decode_entries (map (\<lambda>kv. (fst kv, encoded (snd kv))) kvs) acc = Inr (acc @ decs)
            \<and> same_fields kvs decs"
proof (induction kvs arbitrary: acc)
  case Nil
  then show ?case by simp
next
  case (Cons kv kvs)
  from Cons.prems(1) obtain dec where dec: "decodeNestedFormData (encoded (snd kv)) = Inr dec"
    "same_payload (snd kv) dec"
    by auto
  have fresh: "fst kv \<notin> fst ` set acc" using Cons.prems(4) by auto
  have np: "fst kv \<noteq> ''__proto__''" using Cons.prems(3) by auto
  have disj: "fst ` set kvs \<inter> fst ` set (acc @ [(fst kv, dec)]) = {}"
    using Cons.prems(2,4) by auto
  have "\<forall>kv \<in> set kvs. \<exists>dec. decodeNestedFormData (encoded (snd kv)) = Inr dec \<and> same_payload (snd kv) dec"
    and "distinct (map fst kvs)" and "''__proto__'' \<notin> fst ` set kvs"
    using Cons.prems by simp_all
  from Cons.IH [OF this disj] obtain decs
    where decs: "decode_entries (map (\<lambda>kv. (fst kv, encoded (snd kv))) kvs) (acc @ [(fst kv, dec)])
                   = Inr ((acc @ [(fst kv, dec)]) @ decs)"
      "same_fields kvs decs"
    by blast
  have "decode_entries (map (\<lambda>kv. (fst kv, encoded (snd kv))) (kv # kvs)) acc
          = Inr (acc @ (fst kv, dec) # decs)"
    using dec(1) decs(1) by (simp add: js_set_fresh [OF np fresh])
  moreover have "same_fields (kv # kvs) ((fst kv, dec) # decs)"
    using dec(2) decs(2) by simp
  ultimately show ?case by blast
qed

lemma decode_encoded:
  "supported v \<Longrightarrow> \<exists>dec. decodeNestedFormData (encoded v) = Inr dec \<and> same_payload v dec"
proof (induction v rule: supported.induct)
  case (5 s)
  then have "\<not> blob_shaped s" by simp
  then have "decodeNestedFormData (JStr s) = Inr (JStr s)" by (rule decode_string(1))
  then show ?case by simp
next
  case (6 xs)
  then have "\<forall>x \<in> set xs. \<exists>dec. decodeNestedFormData (encoded x) = Inr dec \<and> same_payload x dec"
    by (simp add: list_all_iff)
  from decode_all_encoded [OF this] show ?case by auto
next
  case (7 kvs)
  then have el: "\<forall>kv \<in> set kvs. \<exists>dec. decodeNestedFormData (encoded (snd kv)) = Inr dec
                     \<and> same_payload (snd kv) dec"
    by (simp add: list_all_iff)
  have d: "distinct (map fst kvs)" and np: "''__proto__'' \<notin> fst ` set kvs"
    and ns: "\<not> isEncodedFormData (JObj kvs)"
    using 7(2) by simp_all
  from ns have ns': "\<not> isEncodedFormData (JObj (map (\<lambda>kv. (fst kv, encoded (snd kv))) kvs))"
    using encoded_object_shape [of kvs] by auto
  from decode_entries_encoded [OF el d np, of "[]"] obtain decs
    where "decode_entries (map (\<lambda>kv. (fst kv, encoded (snd kv))) kvs) [] = Inr decs"
      "same_fields kvs decs"
    by auto
  with ns' show ?case by simp
next
  case (8 f)
  then have sf: "sound_file f" by simp
  show ?case by (simp add: decodeFile_readAsDataURL [OF sf])
next
  case (9 es)
  then have d: "distinct (map fst es)" and s: "list_all sound_entry es" by simp_all
  have "same_payload (JFormData es)
          (JFormData (filter is_text_entry es @ filter (\<lambda>kv. \<not> is_text_entry kv) es))"
    using partition_same [OF d, of is_text_entry] by simp
  with decode_encoded_form [OF s] show ?case by blast
qed simp_all


section \<open>The round trip\<close>

text \<open>
  Claim C1 does not hold as stated: a string is a supported payload and passes
  through the encoder unchanged, but the decoder takes every string that has the
  form of a data URL for an encoded file.
\<close>

theorem round_trip_counterexample:
  "encodeNestedFormData (JStr ''data:text/plain;base64,SGk='')
     = Inr (JStr ''data:text/plain;base64,SGk='')
   \<and> decodeNestedFormData (JStr ''data:text/plain;base64,SGk='')
     = Inr (JFile (File ''unknown-filename'' ''text/plain'' ''Hi''))"
  by code_simp

text \<open>Further payloads that do not come back: a plain object with the shape of an
  encoded form container, a file without bytes, a file whose type is empty or has a
  parameter, a form container with a repeated name, and an object or a form
  container with a field named \<open>__proto__\<close>.\<close>

lemma codec_limits:
  "decodeNestedFormData (JObj [(''dataType'', JStr ''formData''), (''items'', JObj [])])
     = Inr (JFormData [])"
  "encodeNestedFormData (JFile (File ''e.txt'' ''text/plain'' [])) = Inr (JStr ''data:text/plain;base64,'')"
  "decodeNestedFormData (JStr ''data:text/plain;base64,'') = Inr (JStr ''data:text/plain;base64,'')"
  "encodeNestedFormData (JFile (File ''b.bin'' [] ''Hi'')) = Inr (JStr ''data:application/octet-stream;base64,SGk='')"
  "decodeNestedFormData (JStr ''data:application/octet-stream;base64,SGk='')
     = Inr (JFile (File ''unknown-filename'' ''application/octet-stream'' ''Hi''))"
  "encodeNestedFormData (JFile (File ''a.txt'' ''text/plain;charset=utf-8'' ''Hi''))
     = Inr (JStr ''data:text/plain;charset=utf-8;base64,SGk='')"
  "decodeNestedFormData (JStr ''data:text/plain;charset=utf-8;base64,SGk='')
     = Inr (JFile (File ''unknown-filename'' ''text/plain'' ''Hi''))"
  "encodeNestedFormData (JFormData [(''k'', FText ''1''), (''k'', FText ''2'')])
     = Inr (JObj [(''dataType'', JStr ''formData''), (''items'', JObj [(''k'', text_item ''2'')])])"
  "decodeNestedFormData (JObj [(''dataType'', JStr ''formData''), (''items'', JObj [(''k'', text_item ''2'')])])
     = Inr (JFormData [(''k'', FText ''2'')])"
  "encodeNestedFormData (JObj [(''__proto__'', JNum 1), (''a'', JNum 2)]) = Inr (JObj [(''a'', JNum 2)])"
  "encodeNestedFormData (JFormData [(''__proto__'', FText ''v'')])
     = Inr (JObj [(''dataType'', JStr ''formData''), (''items'', JObj [])])"
  by code_simp+

text \<open>
  Claim C1, amended. For every supported payload (in particular: no string in it is
  blob-shaped, and no field is named \<open>__proto__\<close>), encoding succeeds, decoding the
  result succeeds, and what comes back is observably equivalent to the payload:
  scalars, arrays and plain objects are the same, a form container has the same
  entries (text, and files with the same bytes, type and name), and a file outside a
  form container has the same bytes and type but the name \<open>unknown-filename\<close>.
\<close>

theorem round_trip:
  assumes "supported v"
  shows "\<exists>enc dec. encodeNestedFormData v = Inr enc \<and> decodeNestedFormData enc = Inr dec
                    \<and> same_payload v dec"
  using encode_supported [OF assms] decode_encoded [OF assms] by blast

theorem round_trip_witness:
  "supported demo_payload
   \<and> (\<exists>enc dec. encodeNestedFormData demo_payload = Inr enc \<and> decodeNestedFormData enc = Inr dec
                 \<and> same_payload demo_payload dec)
   \<and> (case encodeNestedFormData demo_payload of
         Inl e \<Rightarrow> Inl e
       | Inr enc \<Rightarrow> decodeNestedFormData enc) = Inr demo_payload_back
   \<and> same_payload demo_payload demo_payload_back"
proof -
  have s: "supported demo_payload" by code_simp
  have b: "same_payload demo_payload demo_payload_back" by code_simp
  have c: "(case encodeNestedFormData demo_payload of
              Inl e \<Rightarrow> Inl e
            | Inr enc \<Rightarrow> decodeNestedFormData enc) = Inr demo_payload_back"
    by code_simp
  from round_trip [OF s] s b c show ?thesis by blast
qed

section \<open>Strings that are not encoded files\<close>

text \<open>
  Claim C6 does not hold as stated: the decoder does not ask whether a string is a
  data URL. The string below is not one, \<open>decodeFile\<close> does not fail on it, and what
  comes back is a file.
\<close>

theorem string_decoding_counterexample:
  "\<not> is_data_url ''Dear: John; hello,abcd''
   \<and> decodeNestedFormData (JStr ''Dear: John; hello,abcd'')
       = Inr (JFile (File ''unknown-filename'' '' john'' [CHR 0x69, CHR 0xB7, CHR 0x1D]))"
  by code_simp

text \<open>
  Claim C6, amended. A string that is not blob-shaped (it has no comma, or the part
  before the first comma is empty or does not match the media-type pattern, or the
  part after it is empty or not base64) makes \<open>decodeFile\<close> fail; the failure is
  caught inside \<open>decodeNestedFormData\<close> and the string itself is the result. A
  blob-shaped string comes back as a file named \<open>unknown-filename\<close>, data URL or
  not. Either way no error propagates.
\<close>

theorem string_decoding:
  "(\<not> blob_shaped s \<longrightarrow>
      (\<exists>e. decodeFile s ''unknown-filename'' = Inl e) \<and> decodeNestedFormData (JStr s) = Inr (JStr s))
   \<and> (blob_shaped s \<longrightarrow>
        (\<exists>f. decodeNestedFormData (JStr s) = Inr (JFile f) \<and> file_name f = ''unknown-filename''))
   \<and> (CHR '','' \<notin> set s \<longrightarrow> \<not> blob_shaped s)"
proof (intro conjI impI)
  assume n: "\<not> blob_shaped s"
  then have "\<nexists>f. decodeFile s ''unknown-filename'' = Inr f"
    by (simp add: decodeFile_accepts)
  then show "\<exists>e. decodeFile s ''unknown-filename'' = Inl e"
    by (cases "decodeFile s ''unknown-filename''") simp_all
  from n show "decodeNestedFormData (JStr s) = Inr (JStr s)"
    by (rule decode_string(1))
next
  assume "blob_shaped s"
  then show "\<exists>f. decodeNestedFormData (JStr s) = Inr (JFile f) \<and> file_name f = ''unknown-filename''"
    by (rule decode_string(2))
next
  assume "CHR '','' \<notin> set s"
  then show "\<not> blob_shaped s" by (simp add: blob_shaped_def)
qed

theorem string_decoding_witness:
  "\<not> blob_shaped ''Hello''
   \<and> decodeNestedFormData (JStr ''Hello'') = Inr (JStr ''Hello'')
   \<and> \<not> blob_shaped ''a,b''
   \<and> decodeNestedFormData (JStr ''a,b'') = Inr (JStr ''a,b'')
   \<and> \<not> blob_shaped ''x:y;,A''
   \<and> decodeNestedFormData (JStr ''x:y;,A'') = Inr (JStr ''x:y;,A'')
   \<and> is_data_url ''data:text/plain;base64,SGk=''
   \<and> blob_shaped ''data:text/plain;base64,SGk=''
   \<and> (\<exists>f. decodeNestedFormData (JStr ''data:text/plain;base64,SGk='') = Inr (JFile f)
            \<and> file_name f = ''unknown-filename'')"
proof -
  have 1: "\<not> blob_shaped ''Hello''" and 2: "\<not> blob_shaped ''a,b''" and 3: "\<not> blob_shaped ''x:y;,A''"
    and 4: "blob_shaped ''data:text/plain;base64,SGk=''"
    and 5: "is_data_url ''data:text/plain;base64,SGk=''"
    by code_simp+
  from string_decoding [of "''Hello''"] string_decoding [of "''a,b''"] string_decoding [of "''x:y;,A''"]
       string_decoding [of "''data:text/plain;base64,SGk=''"] 1 2 3 4 5
  show ?thesis by blast
qed

end
